theory Spec2Isabelle
  imports Main "HOL-Library.Word"
begin

section \<open>Chunking of call lists\<close>

text \<open>
  The Go function \<open>chunkInputs\<close> splits a slice into sub-slices. Its integers are Go
  \<open>int\<close>s; every product and sum it computes is bounded by \<open>len(inputs)\<close> once the
  guard \<open>chunkSize > len(inputs)\<close> has been passed, so no overflow can occur and the
  integers are modelled as unbounded \<open>int\<close>. Both operands of \<open>%\<close> and \<open>/\<close> are
  positive there, where Go's truncating operators agree with \<open>mod\<close> and \<open>div\<close>.

  A slice expression \<open>inputs[start:end]\<close> panics when its bounds are out of range; the
  model returns \<open>None\<close> for the panic. (Go checks \<open>end\<close> against the capacity, which is
  at least the length, so a slice expression that is in range here is in range in Go.)
\<close>

definition sliceExpr :: "'a list \<Rightarrow> int \<Rightarrow> int \<Rightarrow> 'a list option" where
  "sliceExpr inputs start end' =
     (if 0 \<le> start \<and> start \<le> end' \<and> end' \<le> int (length inputs)
      then Some (take (nat (end' - start)) (drop (nat start) inputs))
      else None)"

text \<open>The loop \<open>for i := 0; i < chunkCount; i++\<close> of \<open>chunkInputs\<close>.\<close>

function chunkLoop :: "int \<Rightarrow> int \<Rightarrow> int \<Rightarrow> 'a list \<Rightarrow> 'a list list \<Rightarrow> 'a list list option" where
  "chunkLoop i chunkCount chunkSize inputs chunks =
     (if i < chunkCount then
        (let start = i * chunkSize;
             end' = start + chunkSize
         in case sliceExpr inputs start end' of
              None \<Rightarrow> None
            | Some c \<Rightarrow> chunkLoop (i + 1) chunkCount chunkSize inputs (chunks @ [c]))
      else Some chunks)"
  by pat_completeness auto
termination
  by (relation "measure (\<lambda>(i, chunkCount, chunkSize, inputs, chunks). nat (chunkCount - i))") auto

declare chunkLoop.simps [simp del]

definition chunkInputs :: "int \<Rightarrow> 'a list \<Rightarrow> 'a list list option" where
  "chunkInputs chunkSize inputs =
     (if length inputs = 0 then Some []
      else if chunkSize \<le> 0 \<or> length inputs < 2 \<or> chunkSize > int (length inputs)
      then Some [inputs]
      else
        (let lastChunkSize = int (length inputs) mod chunkSize;
             chunkCount = int (length inputs) div chunkSize
         in case chunkLoop 0 chunkCount chunkSize inputs [] of
              None \<Rightarrow> None
            | Some chunks \<Rightarrow>
                (if lastChunkSize > 0 then
                   (let start = chunkCount * chunkSize;
                        end' = start + lastChunkSize
                    in case sliceExpr inputs start end' of
                         None \<Rightarrow> None
                       | Some c \<Rightarrow> Some (chunks @ [c]))
                 else Some chunks)))"

section \<open>Errors, panics and outcomes\<close>

text \<open>
  Every error the two source files build is a constructor; the text that
  \<open>fmt.Errorf\<close> formats is recorded with it:
  \<^item> \<open>External e\<close>: an error returned by a collaborator (the ABI codec of go-ethereum,
    the remote multicall binding), as its message;
  \<^item> \<open>NotStruct\<close>: \<open>errors.New("outputs type is not a struct")\<close>;
  \<^item> \<open>UnpackOutputs m e\<close>: \<open>"failed to unpack '%s' outputs: %v"\<close> with method \<open>m\<close>;
  \<^item> \<open>PackInputs m e\<close>: \<open>"failed to pack '%s' inputs: %v"\<close> with method \<open>m\<close>;
  \<^item> \<open>PackAt i e\<close>: \<open>"failed to pack call inputs at index [%d]: %v"\<close>;
  \<^item> \<open>MulticallFailed e\<close>: \<open>"multicall failed: %v"\<close>;
  \<^item> \<open>UnpackAt i e\<close>: \<open>"failed to unpack call outputs at index [%d]: %v"\<close>;
  \<^item> \<open>ChunkFailed i e\<close>: \<open>"call chunk [%d] failed: %v"\<close>.
\<close>

datatype error =
    External string
  | NotStruct
  | UnpackOutputs string error
  | PackInputs string error
  | PackAt nat error
  | MulticallFailed error
  | UnpackAt nat error
  | ChunkFailed nat error

text \<open>
  A Go run-time panic is an outcome of its own, distinct from a returned error:
  a nil pointer dereference, \<open>calls[i]\<close> out of range, \<open>out[i]\<close> out of range, the
  panic of \<open>abi.ConvertType\<close> on a value it cannot convert, and the panic of
  \<open>reflect.Value.Set\<close> on a field that is not settable.
\<close>

datatype panic =
    NilDereference
  | CallsIndexOutOfRange
  | OutIndexOutOfRange
  | ConvertTypePanic
  | SetPanic
  | SliceBoundsOutOfRange

datatype 'a outcome = Return 'a | Panic panic

section \<open>Data model\<close>

type_synonym bytes = "8 word list"
type_synonym address = "8 word list"
type_synonym ref = nat

text \<open>
  The parsed ABI of go-ethereum is a collaborator: it is the pair of its two methods,
  \<open>Pack(name, args...)\<close> and \<open>Unpack(name, data)\<close>, each returning an error message
  or a result. Values of the EVM type system are of an arbitrary type \<open>'v\<close>.
\<close>

record 'v ABI =
  abi_Pack :: "string \<Rightarrow> 'v list \<Rightarrow> string + bytes"
  abi_Unpack :: "string \<Rightarrow> bytes \<Rightarrow> string + 'v list"

text \<open>\<open>Contract\<close>: the field \<open>abi\<close> is a pointer, \<open>None\<close> when it is nil.\<close>

record 'v Contract =
  abi :: "'v ABI option"
  address :: address

text \<open>
  An output destination is seen through reflection only. A struct is the list of its
  fields in declaration order: the field's Go type (of an arbitrary type \<open>'ty\<close>),
  whether the field is exported, and its current value.
\<close>

record ('v, 'ty) StructField =
  fieldType :: 'ty
  fieldExported :: bool
  fieldValue :: 'v

text \<open>
  \<open>Outputs\<close> has type \<open>any\<close>. It holds a pointer (\<open>Pointer p\<close>; the store of structs
  says whether \<open>p\<close> points to a struct), a struct by value, or anything else (nil, a
  number, a map, ...).
\<close>

datatype ('v, 'ty) anyValue = Pointer ref | StructValue "('v, 'ty) StructField list" | OtherValue

text \<open>\<open>Call\<close>: the field \<open>Contract\<close> is a pointer, \<open>None\<close> when it is nil.\<close>

record ('v, 'ty) Call =
  CallName :: string
  Contract :: "'v Contract option"
  Method :: string
  Inputs :: "'v list"
  Outputs :: "('v, 'ty) anyValue"
  CanFail :: bool
  Failed :: bool

record Multicall3Call3 =
  Target :: address
  AllowFailure :: bool
  CallData :: bytes

record Multicall3Result =
  Success :: bool
  ReturnData :: bytes

text \<open>
  \<open>Caller\<close> holds the multicall binding, whose one method used here is \<open>Aggregate3\<close>.
  The remote side is a collaborator: given the call options and the batch, it answers
  with an error message or a list of results, and may change its own state \<open>'w\<close>.
\<close>

record ('o, 'w) Caller =
  contract :: "'o \<Rightarrow> Multicall3Call3 list \<Rightarrow> 'w \<Rightarrow> (string + Multicall3Result list) \<times> 'w"

text \<open>
  The units are passed as \<open>[]*Call\<close> and mutated in place, so the state has a store:
  \<open>heap\<close> maps a pointer to the \<open>Call\<close> it points to (\<open>None\<close>: the pointer is nil), and
  \<open>structs\<close> maps a pointer to the struct it points to (\<open>None\<close>: it is nil or points to
  something that is not a struct). The two stores are disjoint: a unit is not the output
  destination of a unit. \<open>world\<close> is the state of the remote side and \<open>slept\<close> the pauses
  made by \<open>time.Sleep\<close>, in order.
\<close>

record ('v, 'ty, 'w) state =
  heap :: "ref \<Rightarrow> ('v, 'ty) Call option"
  structs :: "ref \<Rightarrow> ('v, 'ty) StructField list option"
  world :: 'w
  slept :: "int list"

section \<open>Packing and unpacking one call\<close>

text \<open>\<open>Call.Pack\<close>. It reads the unit and writes nothing.\<close>

definition Call_Pack :: "('v, 'ty) Call \<Rightarrow> (error + bytes) outcome" where
  "Call_Pack call =
     (case Contract call of
        None \<Rightarrow> Panic NilDereference
      | Some c \<Rightarrow>
          (case abi c of
             None \<Rightarrow> Panic NilDereference
           | Some a \<Rightarrow>
               (case abi_Pack a (Method call) (Inputs call) of
                  Inl err \<Rightarrow> Return (Inl (PackInputs (Method call) (External err)))
                | Inr b \<Rightarrow> Return (Inr b))))"

text \<open>
  The reflection value \<open>t\<close> of \<open>Call.Unpack\<close> after \<open>t = t.Elem()\<close>, when its kind is
  \<open>Struct\<close>: the fields, and whether the value is addressable (it is only when reached
  through a pointer). \<open>None\<close>: the kind is not \<open>Struct\<close>.
\<close>

definition structOf :: "('v, 'ty) anyValue \<Rightarrow> (ref \<Rightarrow> ('v, 'ty) StructField list option) \<Rightarrow>
    (bool \<times> ('v, 'ty) StructField list) option" where
  "structOf outputs S =
     (case outputs of
        Pointer p \<Rightarrow> (case S p of None \<Rightarrow> None | Some fs \<Rightarrow> Some (True, fs))
      | StructValue fs \<Rightarrow> Some (False, fs)
      | OtherValue \<Rightarrow> None)"

text \<open>
  The loop \<open>for i := 0; i < fieldCount; i++\<close> of \<open>Call.Unpack\<close>, on the fields of the
  destination. In the order of the source: \<open>out[i]\<close> panics out of range;
  \<open>abi.ConvertType\<close> (a collaborator, \<open>None\<close> where it panics) converts the value to the
  field's type; \<open>field.Set\<close> panics unless the struct is addressable and the field
  exported. The result is the panic, if any, and the fields as written so far.
\<close>

function Unpack_loop :: "('v \<Rightarrow> 'ty \<Rightarrow> 'v option) \<Rightarrow> bool \<Rightarrow> 'v list \<Rightarrow> nat \<Rightarrow>
    ('v, 'ty) StructField list \<Rightarrow> panic option \<times> ('v, 'ty) StructField list" where
  "Unpack_loop ConvertType addressable out i fs =
     (if i < length fs then
        (if length out \<le> i then (Some OutIndexOutOfRange, fs)
         else
           (case ConvertType (out ! i) (fieldType (fs ! i)) of
              None \<Rightarrow> (Some ConvertTypePanic, fs)
            | Some converted \<Rightarrow>
                (if \<not> addressable \<or> \<not> fieldExported (fs ! i) then (Some SetPanic, fs)
                 else Unpack_loop ConvertType addressable out (i + 1)
                        (fs[i := (fs ! i)\<lparr>fieldValue := converted\<rparr>]))))
      else (None, fs))"
  by pat_completeness auto
termination
  by (relation "measure (\<lambda>(ConvertType, addressable, out, i, fs). length fs - i)") auto

declare Unpack_loop.simps [simp del]

text \<open>
  \<open>Call.Unpack\<close>, on the store of structs: the fields written by the loop are the
  destination's new contents (also when the loop panics: the writes made before the
  panic stay).
\<close>

definition Call_Unpack :: "('v \<Rightarrow> 'ty \<Rightarrow> 'v option) \<Rightarrow> ('v, 'ty) Call \<Rightarrow> bytes \<Rightarrow>
    (ref \<Rightarrow> ('v, 'ty) StructField list option) \<Rightarrow>
    error option outcome \<times> (ref \<Rightarrow> ('v, 'ty) StructField list option)" where
  "Call_Unpack ConvertType call b S =
     (case structOf (Outputs call) S of
        None \<Rightarrow> (Return (Some NotStruct), S)
      | Some (addressable, fs) \<Rightarrow>
          (case Contract call of
             None \<Rightarrow> (Panic NilDereference, S)
           | Some c \<Rightarrow>
               (case abi c of
                  None \<Rightarrow> (Panic NilDereference, S)
                | Some a \<Rightarrow>
                    (case abi_Unpack a (Method call) b of
                       Inl err \<Rightarrow>
                         (Return (Some (UnpackOutputs (Method call) (External err))), S)
                     | Inr out \<Rightarrow>
                         (case Unpack_loop ConvertType addressable out 0 fs of
                            (pn, fs') \<Rightarrow>
                              (case pn of None \<Rightarrow> Return None | Some p \<Rightarrow> Panic p,
                               case Outputs call of
                                 Pointer p \<Rightarrow> S(p \<mapsto> fs')
                               | StructValue _ \<Rightarrow> S
                               | OtherValue \<Rightarrow> S))))))"

section \<open>Dispatching a batch\<close>

text \<open>
  The first loop of \<open>Caller.Call\<close>, \<open>for i, call := range calls\<close>: it packs each unit and
  appends the triple for the remote side. A nil unit panics at its first dereference.
\<close>

fun Call_packLoop :: "(ref \<Rightarrow> ('v, 'ty) Call option) \<Rightarrow> nat \<Rightarrow> ref list \<Rightarrow>
    Multicall3Call3 list \<Rightarrow> (error + Multicall3Call3 list) outcome" where
  "Call_packLoop h i [] multiCalls = Return (Inr multiCalls)"
| "Call_packLoop h i (p # calls) multiCalls =
     (case h p of
        None \<Rightarrow> Panic NilDereference
      | Some call \<Rightarrow>
          (case Call_Pack call of
             Panic pn \<Rightarrow> Panic pn
           | Return (Inl err) \<Rightarrow> Return (Inl (PackAt i err))
           | Return (Inr b) \<Rightarrow>
               (case Contract call of
                  None \<Rightarrow> Panic NilDereference
                | Some c \<Rightarrow>
                    Call_packLoop h (i + 1) calls
                      (multiCalls @
                         [\<lparr>Target = address c, AllowFailure = CanFail call, CallData = b\<rparr>]))))"

text \<open>
  The body of the second loop of \<open>Caller.Call\<close>, \<open>for i, result := range results\<close>,
  at index \<open>i\<close>. \<open>calls[i]\<close> panics when \<open>i\<close> is out of range; the failure flag is
  written before anything else; a failed unit is skipped (\<open>continue\<close>); an error of
  \<open>Unpack\<close> is returned with the index. \<open>Return None\<close> stands for going on with the
  next iteration.
\<close>

definition Call_resultStep :: "('v \<Rightarrow> 'ty \<Rightarrow> 'v option) \<Rightarrow> ref list \<Rightarrow> nat \<Rightarrow>
    Multicall3Result \<Rightarrow> ('v, 'ty, 'w) state \<Rightarrow>
    error option outcome \<times> ('v, 'ty, 'w) state" where
  "Call_resultStep ConvertType calls i result st =
     (if length calls \<le> i then (Panic CallsIndexOutOfRange, st)
      else
        (case heap st (calls ! i) of
           None \<Rightarrow> (Panic NilDereference, st)
         | Some call0 \<Rightarrow>
             (let call = call0\<lparr>Failed := \<not> Success result\<rparr>;
                  st1 = st\<lparr>heap := (heap st)(calls ! i \<mapsto> call)\<rparr>
              in if Failed call then (Return None, st1)
                 else
                   (case Call_Unpack ConvertType call (ReturnData result) (structs st1) of
                      (Panic pn, S) \<Rightarrow> (Panic pn, st1\<lparr>structs := S\<rparr>)
                    | (Return (Some err), S) \<Rightarrow>
                        (Return (Some (UnpackAt i err)), st1\<lparr>structs := S\<rparr>)
                    | (Return None, S) \<Rightarrow> (Return None, st1\<lparr>structs := S\<rparr>)))))"

text \<open>The loop itself: it ends at the first iteration that returns or panics.\<close>

fun Call_resultLoop :: "('v \<Rightarrow> 'ty \<Rightarrow> 'v option) \<Rightarrow> ref list \<Rightarrow> nat \<Rightarrow>
    Multicall3Result list \<Rightarrow> ('v, 'ty, 'w) state \<Rightarrow>
    error option outcome \<times> ('v, 'ty, 'w) state" where
  "Call_resultLoop ConvertType calls i [] st = (Return None, st)"
| "Call_resultLoop ConvertType calls i (result # results) st =
     (case Call_resultStep ConvertType calls i result st of
        (Return None, st1) \<Rightarrow> Call_resultLoop ConvertType calls (i + 1) results st1
      | (Return (Some err), st1) \<Rightarrow> (Return (Some err), st1)
      | (Panic pn, st1) \<Rightarrow> (Panic pn, st1))"

text \<open>\<open>Caller.Call\<close>. Every return statement returns the slice \<open>calls\<close> it was given.\<close>

definition Caller_Call :: "('v \<Rightarrow> 'ty \<Rightarrow> 'v option) \<Rightarrow> ('o, 'w) Caller \<Rightarrow> 'o \<Rightarrow> ref list \<Rightarrow>
    ('v, 'ty, 'w) state \<Rightarrow> (ref list \<times> error option) outcome \<times> ('v, 'ty, 'w) state" where
  "Caller_Call ConvertType caller opts calls st =
     (case Call_packLoop (heap st) 0 calls [] of
        Panic pn \<Rightarrow> (Panic pn, st)
      | Return (Inl err) \<Rightarrow> (Return (calls, Some err), st)
      | Return (Inr multiCalls) \<Rightarrow>
          (case contract caller opts multiCalls (world st) of
             (Inl err, w) \<Rightarrow>
               (Return (calls, Some (MulticallFailed (External err))), st\<lparr>world := w\<rparr>)
           | (Inr results, w) \<Rightarrow>
               (case Call_resultLoop ConvertType calls 0 results (st\<lparr>world := w\<rparr>) of
                  (Panic pn, st') \<Rightarrow> (Panic pn, st')
                | (Return (Some err), st') \<Rightarrow> (Return (calls, Some err), st')
                | (Return None, st') \<Rightarrow> (Return (calls, None), st'))))"

section \<open>Dispatching in chunks\<close>

text \<open>
  The loop \<open>for i, chunk := range chunkInputs(chunkSize, calls)\<close> of
  \<open>Caller.CallChunked\<close>. \<open>time.Sleep(cooldown)\<close> is recorded in \<open>slept\<close>. On an error of
  a chunk the slice returned is \<open>calls\<close>, the whole input, not \<open>allCalls\<close>.
\<close>

fun CallChunked_loop :: "('v \<Rightarrow> 'ty \<Rightarrow> 'v option) \<Rightarrow> ('o, 'w) Caller \<Rightarrow> 'o \<Rightarrow> int \<Rightarrow>
    ref list \<Rightarrow> nat \<Rightarrow> ref list list \<Rightarrow> ref list \<Rightarrow> ('v, 'ty, 'w) state \<Rightarrow>
    (ref list \<times> error option) outcome \<times> ('v, 'ty, 'w) state" where
  "CallChunked_loop ConvertType caller opts cooldown calls i [] allCalls st =
     (Return (allCalls, None), st)"
| "CallChunked_loop ConvertType caller opts cooldown calls i (chunk # chunks) allCalls st =
     (let st1 = (if i > 0 \<and> cooldown > 0 then st\<lparr>slept := slept st @ [cooldown]\<rparr> else st)
      in case Caller_Call ConvertType caller opts chunk st1 of
           (Panic pn, st2) \<Rightarrow> (Panic pn, st2)
         | (Return (ck, Some err), st2) \<Rightarrow> (Return (calls, Some (ChunkFailed i err)), st2)
         | (Return (ck, None), st2) \<Rightarrow>
             CallChunked_loop ConvertType caller opts cooldown calls (i + 1) chunks
               (allCalls @ ck) st2)"

definition Caller_CallChunked :: "('v \<Rightarrow> 'ty \<Rightarrow> 'v option) \<Rightarrow> ('o, 'w) Caller \<Rightarrow> 'o \<Rightarrow>
    int \<Rightarrow> int \<Rightarrow> ref list \<Rightarrow> ('v, 'ty, 'w) state \<Rightarrow>
    (ref list \<times> error option) outcome \<times> ('v, 'ty, 'w) state" where
  "Caller_CallChunked ConvertType caller opts chunkSize cooldown calls st =
     (case chunkInputs chunkSize calls of
        None \<Rightarrow> (Panic SliceBoundsOutOfRange, st)
      | Some chunks \<Rightarrow>
          CallChunked_loop ConvertType caller opts cooldown calls 0 chunks [] st)"

section \<open>Building calls\<close>

text \<open>
  \<open>Contract.NewCall\<close>, and the two builder methods \<open>Call.Name\<close> and
  \<open>Call.AllowFailure\<close>. The receiver of \<open>NewCall\<close> is a pointer that the new unit
  keeps; it is not dereferenced.
\<close>

definition NewCall :: "'v Contract option \<Rightarrow> ('v, 'ty) anyValue \<Rightarrow> string \<Rightarrow> 'v list \<Rightarrow>
    ('v, 'ty) Call" where
  "NewCall contract' outputs methodName inputs =
     \<lparr>CallName = [], Contract = contract', Method = methodName, Inputs = inputs,
      Outputs = outputs, CanFail = False, Failed = False\<rparr>"

definition Name :: "('v, 'ty) Call \<Rightarrow> string \<Rightarrow> ('v, 'ty) Call" where
  "Name call name = call\<lparr>CallName := name\<rparr>"

definition AllowFailure :: "('v, 'ty) Call \<Rightarrow> ('v, 'ty) Call" where
  "AllowFailure call = call\<lparr>CanFail := True\<rparr>"

section \<open>Conditions on a dispatch\<close>

text \<open>The unit behind pointer \<open>p\<close> is not nil and \<open>Pack\<close> returns its bytes.\<close>

definition packsOK :: "(ref \<Rightarrow> ('v, 'ty) Call option) \<Rightarrow> ref \<Rightarrow> bool" where
  "packsOK h p =
     (case h p of
        None \<Rightarrow> False
      | Some call \<Rightarrow> (case Call_Pack call of Return (Inr b) \<Rightarrow> True | _ \<Rightarrow> False))"


section \<open>A test interface and a stub of the remote side\<close>

text \<open>
  Concrete collaborators, for running the functions: an interface with the one method
  \<open>balanceOf\<close> of one argument, whose codec writes each value as one byte; a
  conversion that accepts a value when it fits the field's width in bits; a remote
  side that answers its \<open>n\<close>-th request with the \<open>n\<close>-th entry of a fixed list.
\<close>

definition testABI :: "nat ABI" where
  "testABI =
     \<lparr>abi_Pack = (\<lambda>name args.
        if name \<noteq> ''balanceOf'' then Inl ''method not found''
        else if length args \<noteq> 1 then Inl ''argument count mismatch''
        else Inr (map of_nat args)),
      abi_Unpack = (\<lambda>name data.
        if name \<noteq> ''balanceOf'' then Inl ''method not found''
        else if data = [] then Inl ''empty output''
        else Inr (map unat data))\<rparr>"

definition testContract :: "nat Contract" where
  "testContract = \<lparr>abi = Some testABI, address = [0xCA, 0x11]\<rparr>"

definition testConvertType :: "nat \<Rightarrow> nat \<Rightarrow> nat option" where
  "testConvertType v bits = (if v < 2 ^ bits then Some v else None)"

definition stubCaller :: "(string + Multicall3Result list) list \<Rightarrow> (unit, nat) Caller" where
  "stubCaller answers =
     \<lparr>contract = (\<lambda>opts multiCalls n.
        (if n < length answers then answers ! n else Inl ''no answer'', n + 1))\<rparr>"

definition balanceOf :: "nat list \<Rightarrow> ref \<Rightarrow> (nat, nat) Call" where
  "balanceOf inputs p = NewCall (Some testContract) (Pointer p) ''balanceOf'' inputs"

definition uint8 :: "nat \<Rightarrow> (nat, nat) StructField" where
  "uint8 v = \<lparr>fieldType = 8, fieldExported = True, fieldValue = v\<rparr>"

definition ok :: "bytes \<Rightarrow> Multicall3Result" where
  "ok b = \<lparr>Success = True, ReturnData = b\<rparr>"

definition failed :: Multicall3Result where
  "failed = \<lparr>Success = False, ReturnData = []\<rparr>"

definition testState :: "(ref \<times> (nat, nat) Call) list \<Rightarrow>
    (ref \<times> (nat, nat) StructField list) list \<Rightarrow> (nat, nat, nat) state" where
  "testState units dests =
     \<lparr>heap = map_of units, structs = map_of dests, world = 0, slept = []\<rparr>"

text \<open>Three units at pointers 0, 1, 2 with destinations of one field at 10, 11, 12.\<close>

definition threeUnits :: "(nat, nat, nat) state" where
  "threeUnits =
     testState [(0, balanceOf [5] 10), (1, balanceOf [6] 11), (2, balanceOf [7] 12)]
       [(10, [uint8 0]), (11, [uint8 0]), (12, [uint8 0])]"

text \<open>What a test looks at: the failure flags of units and the values in destinations.\<close>

definition failedFlags :: "('v, 'ty, 'w) state \<Rightarrow> ref list \<Rightarrow> bool option list" where
  "failedFlags st ps = map (\<lambda>p. map_option Failed (heap st p)) ps"

definition destValues :: "('v, 'ty, 'w) state \<Rightarrow> ref list \<Rightarrow> 'v list option list" where
  "destValues st qs = map (\<lambda>q. map_option (map fieldValue) (structs st q)) qs"

section \<open>Properties of the chunker\<close>

lemma sliceExpr_in_range:
  assumes "0 \<le> s" "0 \<le> n" "s + n \<le> int (length xs)"
  shows "sliceExpr xs s (s + n) = Some (take (nat n) (drop (nat s) xs))"
  using assms by (simp add: sliceExpr_def)

text \<open>
  The loop, started at iteration \<open>i\<close> with all remaining slices in range, appends the
  chunks \<open>i, i + 1, \<dots>, chunkCount - 1\<close> in this order.
\<close>

lemma chunkLoop_closed:
  assumes "0 < s" "0 \<le> i" "i \<le> c" "c * s \<le> int (length xs)"
  shows "chunkLoop i c s xs acc =
           Some (acc @ map (\<lambda>k. take (nat s) (drop (k * nat s) xs)) [nat i..<nat c])"
  using assms
proof (induction i c s xs acc rule: chunkLoop.induct)
  case (1 i c s xs acc)
  show ?case
  proof (cases "i < c")
    case False
    with "1.prems" have "i = c" by simp
    then show ?thesis by (simp add: chunkLoop.simps)
  next
    case True
    have "(i + 1) * s \<le> c * s"
      using True "1.prems"(1) by (intro mult_right_mono) auto
    then have rng: "i * s + s \<le> int (length xs)"
      using "1.prems"(4) by (simp add: algebra_simps)
    have is0: "0 \<le> i * s" using "1.prems" by simp
    have sl: "sliceExpr xs (i * s) (i * s + s) = Some (take (nat s) (drop (nat (i * s)) xs))"
      using sliceExpr_in_range [OF is0 _ rng] "1.prems"(1) by simp
    have nm: "nat (i * s) = nat i * nat s"
      using "1.prems" by (simp add: nat_mult_distrib)
    have ih: "chunkLoop (i + 1) c s xs (acc @ [take (nat s) (drop (nat (i * s)) xs)]) =
                Some ((acc @ [take (nat s) (drop (nat (i * s)) xs)]) @
                      map (\<lambda>k. take (nat s) (drop (k * nat s) xs)) [nat (i + 1)..<nat c])"
      using "1.IH" [OF True refl refl sl] "1.prems" True by simp
    have up: "[nat i..<nat c] = nat i # [nat (i + 1)..<nat c]"
      using True "1.prems"(2) by (simp add: upt_conv_Cons nat_add_distrib)
    show ?thesis
      using True sl ih by (subst chunkLoop.simps) (simp add: Let_def up nm)
  qed
qed

lemma concat_full_chunks:
  "c * s \<le> length xs \<Longrightarrow>
     concat (map (\<lambda>k. take s (drop (k * s) xs)) [0..<c]) = take (c * s) xs"
proof (induction c)
  case 0
  then show ?case by simp
next
  case (Suc c)
  then have "concat (map (\<lambda>k. take s (drop (k * s) xs)) [0..<c]) = take (c * s) xs"
    by simp
  moreover have "take (c * s) xs @ take s (drop (c * s) xs) = take (c * s + s) xs"
    by (simp add: take_add)
  ultimately show ?case by (simp add: add.commute)
qed

text \<open>The closed form of \<open>chunkInputs\<close> on the splitting path.\<close>

lemma chunkInputs_split:
  assumes "2 \<le> length xs" "1 \<le> size'" "size' \<le> int (length xs)"
  shows "chunkInputs size' xs =
           Some (map (\<lambda>k. take (nat size') (drop (k * nat size') xs))
                   [0..<length xs div nat size'] @
                 (if length xs mod nat size' = 0 then []
                  else [drop (length xs div nat size' * nat size') xs]))"
proof -
  define s where "s = nat size'"
  define n where "n = length xs"
  have s: "size' = int s" "0 < s" "s \<le> n" using assms by (simp_all add: s_def n_def)
  have dv: "int n div int s = int (n div s)" by (simp add: zdiv_int)
  have md: "int n mod int s = int (n mod s)" by (simp add: zmod_int)
  have bound: "int (n div s) * int s \<le> int (length xs)"
  proof -
    have "n div s * s \<le> n" by (rule div_times_less_eq_dividend)
    then have "int (n div s * s) \<le> int n" by (simp only: of_nat_le_iff)
    then show ?thesis by (simp add: n_def)
  qed
  have loop: "chunkLoop 0 (int (n div s)) (int s) xs [] =
                Some (map (\<lambda>k. take s (drop (k * s) xs)) [0..<n div s])"
    using chunkLoop_closed [of "int s" 0 "int (n div s)" xs "[]"] s bound by simp
  have last: "0 < n mod s \<Longrightarrow>
      sliceExpr xs (int (n div s) * int s) (int (n div s) * int s + int (n mod s)) =
        Some (drop (n div s * s) xs)"
  proof -
    assume "0 < n mod s"
    have tot: "int (n div s) * int s + int (n mod s) = int (length xs)"
      unfolding n_def [symmetric] by (metis div_mult_mod_eq of_nat_add of_nat_mult)
    have "sliceExpr xs (int (n div s) * int s) (int (n div s) * int s + int (n mod s)) =
            Some (take (nat (int (n mod s))) (drop (nat (int (n div s) * int s)) xs))"
      by (rule sliceExpr_in_range) (use tot in simp_all)
    moreover have "nat (int (n div s) * int s) = n div s * s"
      by (simp add: nat_mult_distrib)
    moreover have "length (drop (n div s * s) xs) = n mod s"
      unfolding n_def by (simp add: minus_div_mult_eq_mod)
    ultimately show ?thesis by simp
  qed
  have guard: "\<not> (length xs = 0)" "\<not> (size' \<le> 0 \<or> length xs < 2 \<or> size' > int (length xs))"
    using assms by auto
  show ?thesis
  proof (cases "n mod s = 0")
    case True
    then show ?thesis
      using guard loop
      by (simp add: chunkInputs_def Let_def s n_def [symmetric] s_def [symmetric] dv md)
  next
    case False
    then have "0 < n mod s" by simp
    from last [OF this] show ?thesis
      using guard loop False
      by (simp add: chunkInputs_def Let_def s n_def [symmetric] s_def [symmetric] dv md)
  qed
qed

section \<open>Properties of the pack loop\<close>

lemma Call_Pack_Inr_Contract:
  "Call_Pack call = Return (Inr b) \<Longrightarrow> \<exists>c. Contract call = Some c"
  by (simp add: Call_Pack_def split: option.splits)

lemma packsOK_D:
  assumes "packsOK h p"
  obtains call b c where "h p = Some call" "Call_Pack call = Return (Inr b)"
    "Contract call = Some c"
proof -
  from assms obtain call where 1: "h p = Some call"
    by (auto simp: packsOK_def split: option.splits)
  with assms obtain b where 2: "Call_Pack call = Return (Inr b)"
    by (auto simp: packsOK_def split: outcome.splits sum.splits)
  from Call_Pack_Inr_Contract [OF 2] obtain c where "Contract call = Some c" ..
  with 1 2 that show thesis by blast
qed

lemma Call_packLoop_error:
  assumes "\<forall>p \<in> set pre. packsOK h p"
    and "h q = Some call" and "Call_Pack call = Return (Inl err)"
  shows "Call_packLoop h k (pre @ q # post) acc = Return (Inl (PackAt (k + length pre) err))"
  using assms(1)
proof (induction pre arbitrary: k acc)
  case Nil
  then show ?case using assms(2,3) by simp
next
  case (Cons p pre)
  then have "packsOK h p" by simp
  then obtain c0 b c where "h p = Some c0" "Call_Pack c0 = Return (Inr b)" "Contract c0 = Some c"
    by (rule packsOK_D)
  moreover have "\<forall>p \<in> set pre. packsOK h p" using Cons.prems by simp
  ultimately show ?case using Cons.IH [of "Suc k"] by simp
qed

section \<open>Properties of the result loop\<close>

lemma Call_Unpack_error_no_write:
  "Call_Unpack C call b S = (Return (Some err), S') \<Longrightarrow> S' = S"
  by (auto simp: Call_Unpack_def split: option.splits sum.splits prod.splits anyValue.splits)

lemma Call_Unpack_frame:
  "Call_Unpack C call b S = (out, S') \<Longrightarrow> Outputs call \<noteq> Pointer q \<Longrightarrow> S' q = S q"
  by (auto simp: Call_Unpack_def split: option.splits sum.splits prod.splits anyValue.splits)

lemma Call_resultStep_failed:
  assumes "i < length calls" and "heap st (calls ! i) = Some call" and "\<not> Success r"
  shows "Call_resultStep C calls i r st =
           (Return None, st\<lparr>heap := (heap st)(calls ! i \<mapsto> call\<lparr>Failed := True\<rparr>)\<rparr>)"
  using assms by (simp add: Call_resultStep_def Let_def)

lemma Call_resultStep_unpack_error:
  assumes "i < length calls" and "heap st (calls ! i) = Some call" and "Success r"
    and "Call_Unpack C (call\<lparr>Failed := False\<rparr>) (ReturnData r) (structs st) =
           (Return (Some err), S)"
  shows "Call_resultStep C calls i r st =
           (Return (Some (UnpackAt i err)),
            st\<lparr>heap := (heap st)(calls ! i \<mapsto> call\<lparr>Failed := False\<rparr>)\<rparr>)"
proof -
  have "S = structs st" using assms(4) by (rule Call_Unpack_error_no_write)
  then show ?thesis using assms by (simp add: Call_resultStep_def Let_def)
qed

lemma Call_resultLoop_append:
  "Call_resultLoop C calls k (rs1 @ rs2) st =
     (case Call_resultLoop C calls k rs1 st of
        (Return None, st1) \<Rightarrow> Call_resultLoop C calls (k + length rs1) rs2 st1
      | (Return (Some err), st1) \<Rightarrow> (Return (Some err), st1)
      | (Panic pn, st1) \<Rightarrow> (Panic pn, st1))"
proof (induction rs1 arbitrary: k st)
  case Nil
  then show ?case by simp
next
  case (Cons r rs1)
  obtain o1 st1 where step: "Call_resultStep C calls k r st = (o1, st1)"
    by (cases "Call_resultStep C calls k r st")
  show ?case
  proof (cases o1)
    case (Panic pn)
    with step show ?thesis by simp
  next
    case (Return eo)
    with step show ?thesis
      by (cases eo) (simp_all add: Cons.IH split: prod.splits outcome.splits option.splits)
  qed
qed

lemma Call_resultLoop_split:
  assumes "i < length results"
    and "Call_resultLoop C calls 0 (take i results) st = (Return None, st1)"
  shows "Call_resultLoop C calls 0 results st =
           Call_resultLoop C calls i (results ! i # drop (Suc i) results) st1"
proof -
  have "results = take i results @ (results ! i # drop (Suc i) results)"
    using assms(1) by (rule id_take_nth_drop)
  then have "Call_resultLoop C calls 0 results st =
      Call_resultLoop C calls 0 (take i results @ (results ! i # drop (Suc i) results)) st"
    by simp
  also have "\<dots> = Call_resultLoop C calls (0 + length (take i results))
                     (results ! i # drop (Suc i) results) st1"
    by (simp only: Call_resultLoop_append assms(2) prod.case outcome.case option.case)
  finally show ?thesis using assms(1) by simp
qed

text \<open>One iteration writes the failure flag of unit \<open>i\<close> and nothing else of the heap.\<close>

lemma Call_resultStep_heap:
  assumes "Call_resultStep C calls i r st = (out, st')"
  shows "heap st' = heap st \<or>
         (i < length calls \<and> (\<exists>call. heap st (calls ! i) = Some call \<and>
            heap st' = (heap st)(calls ! i \<mapsto> call\<lparr>Failed := \<not> Success r\<rparr>)))"
  using assms
  by (auto simp: Call_resultStep_def Let_def
      split: if_splits option.splits prod.splits outcome.splits)

lemma Call_resultStep_heap_other:
  assumes "Call_resultStep C calls i r st = (out, st')" and "i < length calls \<longrightarrow> p \<noteq> calls ! i"
  shows "heap st' p = heap st p"
  using Call_resultStep_heap [OF assms(1)] assms(2) by auto

lemma Call_resultStep_Outputs:
  assumes "Call_resultStep C calls i r st = (out, st')"
  shows "map_option Outputs (heap st' p) = map_option Outputs (heap st p)"
  using Call_resultStep_heap [OF assms(1)] by auto

lemma Call_resultStep_world:
  assumes "Call_resultStep C calls i r st = (out, st')"
  shows "world st' = world st \<and> slept st' = slept st"
  using assms
  by (auto simp: Call_resultStep_def Let_def
      split: if_splits option.splits prod.splits outcome.splits)

lemma Call_resultStep_structs:
  assumes "Call_resultStep C calls i r st = (out, st')"
    and "i < length calls \<and> Success r \<longrightarrow>
           map_option Outputs (heap st (calls ! i)) \<noteq> Some (Pointer q)"
  shows "structs st' q = structs st q"
proof (cases "i < length calls \<and> Success r")
  case False
  with assms(1) show ?thesis
    by (auto simp: Call_resultStep_def Let_def split: if_splits option.splits)
next
  case True
  show ?thesis
  proof (cases "heap st (calls ! i)")
    case None
    with assms(1) True show ?thesis by (simp add: Call_resultStep_def)
  next
    case (Some call)
    with assms(2) True have ne: "Outputs (call\<lparr>Failed := False\<rparr>) \<noteq> Pointer q" by simp
    obtain o1 S where up: "Call_Unpack C (call\<lparr>Failed := False\<rparr>) (ReturnData r) (structs st)
                             = (o1, S)"
      by (cases "Call_Unpack C (call\<lparr>Failed := False\<rparr>) (ReturnData r) (structs st)")
    from Call_Unpack_frame [OF up ne] have "S q = structs st q" .
    moreover from assms(1) True Some up have "structs st' = S"
      by (auto simp: Call_resultStep_def Let_def split: outcome.splits option.splits)
    ultimately show ?thesis by simp
  qed
qed





text \<open>Frame properties of the whole loop, by induction from those of one iteration.\<close>

lemma Call_resultLoop_heap_frame:
  assumes "Call_resultLoop C calls k rs st = (out, st')"
    and "p \<notin> set (take (length rs) (drop k calls))"
  shows "heap st' p = heap st p"
  using assms
proof (induction rs arbitrary: k st)
  case Nil
  then show ?case by simp
next
  case (Cons r rs)
  obtain o1 st1 where step: "Call_resultStep C calls k r st = (o1, st1)"
    by (cases "Call_resultStep C calls k r st")
  have ne: "k < length calls \<longrightarrow> p \<noteq> calls ! k"
    using Cons.prems(2) by (auto simp: Cons_nth_drop_Suc [symmetric])
  have h1: "heap st1 p = heap st p"
    using step ne by (rule Call_resultStep_heap_other)
  show ?case
  proof (cases "o1 = Return None")
    case True
    with step Cons.prems(1) have run: "Call_resultLoop C calls (Suc k) rs st1 = (out, st')"
      by simp
    have "p \<notin> set (take (length rs) (drop (Suc k) calls))"
    proof (cases "k < length calls")
      case True
      then show ?thesis using Cons.prems(2) by (auto simp: Cons_nth_drop_Suc [symmetric])
    next
      case False
      then show ?thesis by simp
    qed
    from Cons.IH [OF run this] h1 show ?thesis by simp
  next
    case False
    with step Cons.prems(1) have "st' = st1"
      by (auto split: outcome.splits option.splits)
    with h1 show ?thesis by simp
  qed
qed

lemma Call_resultLoop_Outputs:
  assumes "Call_resultLoop C calls k rs st = (out, st')"
  shows "map_option Outputs (heap st' p) = map_option Outputs (heap st p)"
  using assms
proof (induction rs arbitrary: k st)
  case Nil
  then show ?case by simp
next
  case (Cons r rs)
  obtain o1 st1 where step: "Call_resultStep C calls k r st = (o1, st1)"
    by (cases "Call_resultStep C calls k r st")
  have h1: "map_option Outputs (heap st1 p) = map_option Outputs (heap st p)"
    using step by (rule Call_resultStep_Outputs)
  show ?case
  proof (cases "o1 = Return None")
    case True
    with step Cons.prems(1) have "Call_resultLoop C calls (Suc k) rs st1 = (out, st')"
      by simp
    from Cons.IH [OF this] h1 show ?thesis by simp
  next
    case False
    with step Cons.prems(1) have "st' = st1"
      by (auto split: outcome.splits option.splits)
    with h1 show ?thesis by simp
  qed
qed

lemma Call_resultLoop_world:
  assumes "Call_resultLoop C calls k rs st = (out, st')"
  shows "world st' = world st \<and> slept st' = slept st"
  using assms
proof (induction rs arbitrary: k st)
  case Nil
  then show ?case by simp
next
  case (Cons r rs)
  obtain o1 st1 where step: "Call_resultStep C calls k r st = (o1, st1)"
    by (cases "Call_resultStep C calls k r st")
  have h1: "world st1 = world st \<and> slept st1 = slept st"
    using step by (rule Call_resultStep_world)
  show ?case
  proof (cases "o1 = Return None")
    case True
    with step Cons.prems(1) have "Call_resultLoop C calls (Suc k) rs st1 = (out, st')"
      by simp
    from Cons.IH [OF this] h1 show ?thesis by simp
  next
    case False
    with step Cons.prems(1) have "st' = st1"
      by (auto split: outcome.splits option.splits)
    with h1 show ?thesis by simp
  qed
qed

text \<open>
  A struct is written only by a unit whose success flag is true and whose \<open>Outputs\<close>
  points to it.
\<close>

lemma Call_resultLoop_structs_frame:
  assumes "Call_resultLoop C calls k rs st = (out, st')"
    and "\<forall>j < length rs. k + j < length calls \<and> Success (rs ! j) \<longrightarrow>
           map_option Outputs (heap st (calls ! (k + j))) \<noteq> Some (Pointer q)"
  shows "structs st' q = structs st q"
  using assms
proof (induction rs arbitrary: k st)
  case Nil
  then show ?case by simp
next
  case (Cons r rs)
  obtain o1 st1 where step: "Call_resultStep C calls k r st = (o1, st1)"
    by (cases "Call_resultStep C calls k r st")
  have "k < length calls \<and> Success r \<longrightarrow>
          map_option Outputs (heap st (calls ! k)) \<noteq> Some (Pointer q)"
    using Cons.prems(2) by force
  with step have s1: "structs st1 q = structs st q" by (rule Call_resultStep_structs)
  show ?case
  proof (cases "o1 = Return None")
    case True
    with step Cons.prems(1) have run: "Call_resultLoop C calls (Suc k) rs st1 = (out, st')"
      by simp
    have "\<forall>j < length rs. Suc k + j < length calls \<and> Success (rs ! j) \<longrightarrow>
            map_option Outputs (heap st1 (calls ! (Suc k + j))) \<noteq> Some (Pointer q)"
    proof (intro allI impI)
      fix j assume j: "j < length rs" and c: "Suc k + j < length calls \<and> Success (rs ! j)"
      from j have "Suc j < length (r # rs)" by simp
      moreover from c have "k + Suc j < length calls \<and> Success ((r # rs) ! Suc j)" by simp
      ultimately have "map_option Outputs (heap st (calls ! (k + Suc j))) \<noteq> Some (Pointer q)"
        using Cons.prems(2) by blast
      then show "map_option Outputs (heap st1 (calls ! (Suc k + j))) \<noteq> Some (Pointer q)"
        using Call_resultStep_Outputs [OF step, of "calls ! (Suc k + j)"] by simp
    qed
    from Cons.IH [OF run this] s1 show ?thesis by simp
  next
    case False
    with step Cons.prems(1) have "st' = st1"
      by (auto split: outcome.splits option.splits)
    with s1 show ?thesis by simp
  qed
qed

text \<open>\<open>Caller.Call\<close> once the remote side has answered with a list of results.\<close>

lemma Caller_Call_results:
  assumes "Call_packLoop (heap st) 0 calls [] = Return (Inr multiCalls)"
    and "contract caller opts multiCalls (world st) = (Inr results, w)"
  shows "Caller_Call C caller opts calls st =
           (case Call_resultLoop C calls 0 results (st\<lparr>world := w\<rparr>) of
              (Panic pn, st') \<Rightarrow> (Panic pn, st')
            | (Return eo, st') \<Rightarrow> (Return (calls, eo), st'))"
  using assms
  by (simp add: Caller_Call_def split: prod.splits outcome.splits option.splits)



text \<open>
  The field loop when nothing goes wrong: enough decoded values, every field exported and
  every value convertible. Field \<open>j\<close> receives the converted value \<open>j\<close>.
\<close>

lemma Unpack_loop_ok:
  assumes "length vs = length fs" and "length fs \<le> length out"
    and "\<forall>j. i \<le> j \<and> j < length fs \<longrightarrow>
           fieldExported (fs ! j) \<and> C (out ! j) (fieldType (fs ! j)) = Some (vs ! j)"
  shows "Unpack_loop C True out i fs =
           (None, take i fs @ map2 (\<lambda>f v. f\<lparr>fieldValue := v\<rparr>) (drop i fs) (drop i vs))"
  using assms
proof (induction C "True" out i fs rule: Unpack_loop.induct)
  case (1 C out i fs)
  show ?case
  proof (cases "i < length fs")
    case False
    then show ?thesis by (subst Unpack_loop.simps) simp
  next
    case True
    let ?f = "(fs ! i)\<lparr>fieldValue := vs ! i\<rparr>"
    let ?fs = "fs[i := ?f]"
    from True "1.prems" have here: "fieldExported (fs ! i)"
      "C (out ! i) (fieldType (fs ! i)) = Some (vs ! i)" "\<not> length out \<le> i"
      by auto
    have later: "\<forall>j. i + 1 \<le> j \<and> j < length ?fs \<longrightarrow>
        fieldExported (?fs ! j) \<and> C (out ! j) (fieldType (?fs ! j)) = Some (vs ! j)"
      using "1.prems"(3) by auto
    have "Unpack_loop C True out (i + 1) ?fs =
        (None, take (i + 1) ?fs @
               map2 (\<lambda>f v. f\<lparr>fieldValue := v\<rparr>) (drop (i + 1) ?fs) (drop (i + 1) vs))"
      using True here "1.prems"(1,2) later
      by (intro "1.hyps" [of "vs ! i"]) simp_all
    moreover have "take (i + 1) ?fs = take i fs @ [?f]"
      using True by (simp add: take_Suc_conv_app_nth)
    moreover have "drop (i + 1) ?fs = drop (Suc i) fs" by simp
    moreover have "drop i fs = fs ! i # drop (Suc i) fs"
      using True by (simp add: Cons_nth_drop_Suc)
    moreover have "drop i vs = vs ! i # drop (Suc i) vs"
      using True "1.prems"(1) by (simp add: Cons_nth_drop_Suc)
    ultimately show ?thesis
      using True here by (subst Unpack_loop.simps) simp
  qed
qed

section \<open>Properties of the chunked dispatch\<close>




lemma CallChunked_loop_append:
  "CallChunked_loop C caller opts cooldown calls i (cs1 @ cs2) allCalls st =
     (case CallChunked_loop C caller opts cooldown calls i cs1 allCalls st of
        (Return (done, None), st1) \<Rightarrow>
          CallChunked_loop C caller opts cooldown calls (i + length cs1) cs2 done st1
      | (Return (done, Some err), st1) \<Rightarrow> (Return (done, Some err), st1)
      | (Panic pn, st1) \<Rightarrow> (Panic pn, st1))"
proof (induction cs1 arbitrary: i allCalls st)
  case Nil
  then show ?case by simp
next
  case (Cons chunk cs1)
  define st0 where "st0 = (if i > 0 \<and> cooldown > 0 then st\<lparr>slept := slept st @ [cooldown]\<rparr> else st)"
  obtain r st2 where run: "Caller_Call C caller opts chunk st0 = (r, st2)"
    by (cases "Caller_Call C caller opts chunk st0")
  show ?case
  proof (cases r)
    case (Panic pn)
    with run show ?thesis by (simp add: st0_def [symmetric])
  next
    case (Return res)
    obtain ck eo where res: "res = (ck, eo)" by (cases res)
    show ?thesis
      using run Return res
      by (cases eo)
        (simp_all add: st0_def [symmetric] Cons.IH split: prod.splits outcome.splits option.splits)
  qed
qed

lemma Caller_Call_heap_frame:
  assumes "Caller_Call C caller opts calls st = (r, st')" and "p \<notin> set calls"
  shows "heap st' p = heap st p"
proof (cases "Call_packLoop (heap st) 0 calls []")
  case (Panic pn)
  with assms(1) show ?thesis by (auto simp: Caller_Call_def)
next
  case (Return pk)
  show ?thesis
  proof (cases pk)
    case (Inl err)
    with Return assms(1) show ?thesis by (auto simp: Caller_Call_def)
  next
    case (Inr multiCalls)
    obtain ans w where rm: "contract caller opts multiCalls (world st) = (ans, w)"
      by (cases "contract caller opts multiCalls (world st)")
    show ?thesis
    proof (cases ans)
      case (Inl err)
      with Return \<open>pk = Inr multiCalls\<close> rm assms(1) show ?thesis
        by (auto simp: Caller_Call_def)
    next
      case (Inr results)
      obtain out st2 where run: "Call_resultLoop C calls 0 results (st\<lparr>world := w\<rparr>) = (out, st2)"
        by (cases "Call_resultLoop C calls 0 results (st\<lparr>world := w\<rparr>)")
      have "p \<notin> set (take (length results) (drop 0 calls))"
        using assms(2) by (auto dest: in_set_takeD)
      with run have "heap st2 p = heap (st\<lparr>world := w\<rparr>) p" by (rule Call_resultLoop_heap_frame)
      moreover have "st' = st2"
        using Return \<open>pk = Inr multiCalls\<close> rm Inr run assms(1)
        by (auto simp: Caller_Call_def split: outcome.splits option.splits)
      ultimately show ?thesis by simp
    qed
  qed
qed

lemma Caller_Call_structs_frame:
  assumes "Caller_Call C caller opts calls st = (r, st')"
    and "\<forall>p \<in> set calls. map_option Outputs (heap st p) \<noteq> Some (Pointer q)"
  shows "structs st' q = structs st q"
proof (cases "Call_packLoop (heap st) 0 calls []")
  case (Panic pn)
  with assms(1) show ?thesis by (auto simp: Caller_Call_def)
next
  case (Return pk)
  show ?thesis
  proof (cases pk)
    case (Inl err)
    with Return assms(1) show ?thesis by (auto simp: Caller_Call_def)
  next
    case (Inr multiCalls)
    obtain ans w where rm: "contract caller opts multiCalls (world st) = (ans, w)"
      by (cases "contract caller opts multiCalls (world st)")
    show ?thesis
    proof (cases ans)
      case (Inl err)
      with Return \<open>pk = Inr multiCalls\<close> rm assms(1) show ?thesis
        by (auto simp: Caller_Call_def)
    next
      case (Inr results)
      obtain out st2 where run: "Call_resultLoop C calls 0 results (st\<lparr>world := w\<rparr>) = (out, st2)"
        by (cases "Call_resultLoop C calls 0 results (st\<lparr>world := w\<rparr>)")
      have "\<forall>j < length results. 0 + j < length calls \<and> Success (results ! j) \<longrightarrow>
              map_option Outputs (heap (st\<lparr>world := w\<rparr>) (calls ! (0 + j))) \<noteq> Some (Pointer q)"
        using assms(2) by (auto simp del: map_option_eq_Some)
      with run have "structs st2 q = structs (st\<lparr>world := w\<rparr>) q"
        by (rule Call_resultLoop_structs_frame)
      moreover have "st' = st2"
        using Return \<open>pk = Inr multiCalls\<close> rm Inr run assms(1)
        by (auto simp: Caller_Call_def split: outcome.splits option.splits)
      ultimately show ?thesis by simp
    qed
  qed
qed

section \<open>Running the test interface\<close>

text \<open>The equations that evaluate the model on the test interface, and two runs.\<close>

lemmas model_defs = Caller_Call_def Call_Pack_def Call_resultStep_def Call_Unpack_def structOf_def
  Unpack_loop.simps Let_def

lemmas test_defs = threeUnits_def testState_def balanceOf_def NewCall_def testContract_def
  testABI_def stubCaller_def ok_def failed_def uint8_def testConvertType_def failedFlags_def
  destValues_def

lemma threeUnits_pack:
  "Call_packLoop (heap threeUnits) 0 [0, 1, 2] [] =
     Return (Inr [\<lparr>Target = [0xCA, 0x11], AllowFailure = False, CallData = [5]\<rparr>,
                  \<lparr>Target = [0xCA, 0x11], AllowFailure = False, CallData = [6]\<rparr>,
                  \<lparr>Target = [0xCA, 0x11], AllowFailure = False, CallData = [7]\<rparr>])"
  by code_simp

lemma threeUnits_answer:
  "contract (stubCaller [Inr rs]) ()
          [\<lparr>Target = [0xCA, 0x11], AllowFailure = False, CallData = [5]\<rparr>,
           \<lparr>Target = [0xCA, 0x11], AllowFailure = False, CallData = [6]\<rparr>,
           \<lparr>Target = [0xCA, 0x11], AllowFailure = False, CallData = [7]\<rparr>]
          (world threeUnits) = (Inr rs, 1)"
  by (simp add: stubCaller_def threeUnits_def testState_def)

lemma threeUnits_chunks: "chunkInputs 2 [0 :: nat, 1, 2] = Some [[0, 1], [2]]"
  by code_simp

section \<open>The claims about a dispatch\<close>

text \<open>
  Claim C6. If packing the unit at index \<open>i\<close> fails (the units before it are not nil
  and pack, unit \<open>i\<close> is not nil and the codec rejects its inputs with \<open>cause\<close>), then
  \<open>Caller.Call\<close> returns the list it was given and the error
  \<open>failed to pack call inputs at index [i]\<close> wrapping
  \<open>failed to pack '<method>' inputs: cause\<close>; the state it returns is the state it
  was given: no unit and no destination is written, and the remote side is not called.
\<close>

theorem Call_pack_failure:
  assumes "i < length calls"
    and "\<forall>j < i. packsOK (heap st) (calls ! j)"
    and "heap st (calls ! i) = Some call"
    and "Contract call = Some c" and "abi c = Some a"
    and "abi_Pack a (Method call) (Inputs call) = Inl cause"
  shows "Caller_Call ConvertType caller opts calls st =
           (Return (calls, Some (PackAt i (PackInputs (Method call) (External cause)))), st)"
proof -
  have cp: "Call_Pack call = Return (Inl (PackInputs (Method call) (External cause)))"
    using assms(4-6) by (simp add: Call_Pack_def)
  have split: "calls = take i calls @ calls ! i # drop (Suc i) calls"
    using assms(1) by (rule id_take_nth_drop)
  have pre: "\<forall>p \<in> set (take i calls). packsOK (heap st) p"
    using assms(1,2) by (auto simp: in_set_conv_nth)
  have "Call_packLoop (heap st) 0 (take i calls @ calls ! i # drop (Suc i) calls) [] =
          Return (Inl (PackAt (0 + length (take i calls))
            (PackInputs (Method call) (External cause))))"
    using pre assms(3) cp by (rule Call_packLoop_error)
  then have "Call_packLoop (heap st) 0 calls [] =
          Return (Inl (PackAt i (PackInputs (Method call) (External cause))))"
    using split assms(1) by simp
  then show ?thesis by (simp add: Caller_Call_def)
qed

text \<open>Two units, the second with no argument for \<open>balanceOf\<close>.\<close>

theorem Call_pack_failure_witness:
  "Caller_Call testConvertType (stubCaller []) () [0, 1]
     (testState [(0, balanceOf [5] 10), (1, balanceOf [] 11)]
        [(10, [uint8 0]), (11, [uint8 0])]) =
   (Return ([0, 1], Some (PackAt 1
      (PackInputs ''balanceOf'' (External ''argument count mismatch'')))),
    testState [(0, balanceOf [5] 10), (1, balanceOf [] 11)]
      [(10, [uint8 0]), (11, [uint8 0])])"
proof -
  let ?st = "testState [(0, balanceOf [5] 10), (1, balanceOf [] 11)]
               [(10, [uint8 0]), (11, [uint8 0])]"
  have 1: "1 < length [0 :: nat, 1]" by simp
  have 2: "\<forall>j < 1. packsOK (heap ?st) ([0, 1] ! j)"
    by (simp add: packsOK_def model_defs test_defs)
  have 3: "heap ?st ([0, 1] ! 1) = Some (balanceOf [] 11)"
    by (simp add: testState_def)
  have 4: "Contract (balanceOf [] 11 :: (nat, nat) Call) = Some testContract"
    by (simp add: balanceOf_def NewCall_def)
  have 5: "abi testContract = Some testABI" by (simp add: testContract_def)
  have 6: "abi_Pack testABI (Method (balanceOf [] 11 :: (nat, nat) Call))
             (Inputs (balanceOf [] 11 :: (nat, nat) Call)) = Inl ''argument count mismatch''"
    by (simp add: balanceOf_def NewCall_def testABI_def)
  have 7: "Method (balanceOf [] 11 :: (nat, nat) Call) = ''balanceOf''"
    by (simp add: balanceOf_def NewCall_def)
  from Call_pack_failure [OF 1 2 3 4 5 6, of testConvertType "stubCaller []" "()"]
  show ?thesis by (simp only: 7)
qed

text \<open>
  Claim C5. If the remote aggregation call itself fails (all units were packed and
  \<open>Aggregate3\<close> returns an error), then \<open>Caller.Call\<close> returns the list it was given
  and the error \<open>multicall failed: cause\<close>, and no unit and no destination is written:
  heap and structs are those of the state before (only the remote side may have changed
  its own state).
\<close>

theorem Call_remote_failure:
  assumes "Call_packLoop (heap st) 0 calls [] = Return (Inr multiCalls)"
    and "contract caller opts multiCalls (world st) = (Inl cause, w)"
  shows "\<exists>st'. Caller_Call ConvertType caller opts calls st =
                 (Return (calls, Some (MulticallFailed (External cause))), st') \<and>
               heap st' = heap st \<and> structs st' = structs st \<and> slept st' = slept st"
  using assms by (simp add: Caller_Call_def)

text \<open>Three units and a remote side that answers \<open>execution reverted\<close>.\<close>

theorem Call_remote_failure_witness:
  "\<exists>st'. Caller_Call testConvertType (stubCaller [Inl ''execution reverted'']) () [0, 1, 2]
            threeUnits =
          (Return ([0, 1, 2], Some (MulticallFailed (External ''execution reverted''))), st') \<and>
        heap st' = heap threeUnits \<and> structs st' = structs threeUnits \<and>
        slept st' = slept threeUnits"
proof (rule Call_remote_failure [OF threeUnits_pack])
  show "contract (stubCaller [Inl ''execution reverted'']) ()
          [\<lparr>Target = [0xCA, 0x11], AllowFailure = False, CallData = [5]\<rparr>,
           \<lparr>Target = [0xCA, 0x11], AllowFailure = False, CallData = [6]\<rparr>,
           \<lparr>Target = [0xCA, 0x11], AllowFailure = False, CallData = [7]\<rparr>]
          (world threeUnits) = (Inl ''execution reverted'', 1)"
    by (simp add: stubCaller_def threeUnits_def testState_def)
qed

text \<open>
  Claim C4, as stated: whenever the remote call succeeds and the success flag of unit
  \<open>i\<close> is false, \<open>Caller.Call\<close> sets the failure flag of unit \<open>i\<close> and returns success for
  the whole dispatch. Three units, the second one failed on the remote side. When the
  return bytes of the first unit do not decode, the loop ends at index 0 with an error
  and the failure flag of the second unit is never set; when the return bytes of the
  third unit do not decode, the flag of the second unit is set but the dispatch returns
  the error of index 2.
\<close>

theorem Call_failed_unit_other_decode_failure:
  "fst (Caller_Call testConvertType (stubCaller [Inr [ok [], failed, ok [70]]]) () [0, 1, 2]
          threeUnits) =
     Return ([0, 1, 2],
       Some (UnpackAt 0 (UnpackOutputs ''balanceOf'' (External ''empty output'')))) \<and>
   failedFlags (snd (Caller_Call testConvertType (stubCaller [Inr [ok [], failed, ok [70]]]) ()
     [0, 1, 2] threeUnits)) [0, 1, 2] = [Some False, Some False, Some False] \<and>
   fst (Caller_Call testConvertType (stubCaller [Inr [ok [50], failed, ok []]]) () [0, 1, 2]
          threeUnits) =
     Return ([0, 1, 2],
       Some (UnpackAt 2 (UnpackOutputs ''balanceOf'' (External ''empty output'')))) \<and>
   failedFlags (snd (Caller_Call testConvertType (stubCaller [Inr [ok [50], failed, ok []]]) ()
     [0, 1, 2] threeUnits)) [0, 1, 2] = [Some False, Some True, Some False]"
  by code_simp

text \<open>
  Claim C4, amended. The remote call succeeds with \<open>results\<close>, the success flag of entry
  \<open>i\<close> is false, and the loop reaches index \<open>i\<close> (the entries before \<open>i\<close> are processed
  without an abort and leave the state \<open>st1\<close>, in which unit \<open>i\<close> is \<open>call\<close>). Then
  iteration \<open>i\<close> sets the failure flag of unit \<open>i\<close>, writes nothing else (no destination:
  \<open>structs\<close> is unchanged) and goes on with the next entry. The failure of unit \<open>i\<close> is not
  turned into an error: \<open>Caller.Call\<close> returns the list it was given with whatever the
  processing of the remaining entries returns, and so no error when none of them fails
  to decode. However the remaining entries end, in the state \<open>Caller.Call\<close> leaves the
  failure flag of unit \<open>i\<close> is true, unless the same pointer is listed again among the
  remaining units; and the destination of unit \<open>i\<close> is as it was before the dispatch,
  unless a unit whose success flag is true has the same destination.
\<close>

theorem Call_failed_unit:
  assumes pk: "Call_packLoop (heap st) 0 calls [] = Return (Inr multiCalls)"
    and rm: "contract caller opts multiCalls (world st) = (Inr results, w)"
    and i: "i < length results" "i < length calls"
    and flag: "\<not> Success (results ! i)"
    and before: "Call_resultLoop ConvertType calls 0 (take i results) (st\<lparr>world := w\<rparr>) =
                   (Return None, st1)"
    and unit: "heap st1 (calls ! i) = Some call"
  shows "Call_resultStep ConvertType calls i (results ! i) st1 =
           (Return None, st1\<lparr>heap := (heap st1)(calls ! i \<mapsto> call\<lparr>Failed := True\<rparr>)\<rparr>) \<and>
         Caller_Call ConvertType caller opts calls st =
           (case Call_resultLoop ConvertType calls (Suc i) (drop (Suc i) results)
                   (st1\<lparr>heap := (heap st1)(calls ! i \<mapsto> call\<lparr>Failed := True\<rparr>)\<rparr>) of
              (Panic pn, st') \<Rightarrow> (Panic pn, st')
            | (Return eo, st') \<Rightarrow> (Return (calls, eo), st')) \<and>
         (\<forall>st2. Call_resultLoop ConvertType calls (Suc i) (drop (Suc i) results)
                  (st1\<lparr>heap := (heap st1)(calls ! i \<mapsto> call\<lparr>Failed := True\<rparr>)\<rparr>) =
                  (Return None, st2) \<longrightarrow>
                Caller_Call ConvertType caller opts calls st = (Return (calls, None), st2)) \<and>
         (calls ! i \<notin> set (drop (Suc i) (take (length results) calls)) \<longrightarrow>
            heap (snd (Caller_Call ConvertType caller opts calls st)) (calls ! i) =
              Some (call\<lparr>Failed := True\<rparr>)) \<and>
         (\<forall>q. Outputs call = Pointer q \<and>
               (\<forall>j < length results. j < length calls \<and> Success (results ! j) \<longrightarrow>
                  map_option Outputs (heap st (calls ! j)) \<noteq> Some (Pointer q)) \<longrightarrow>
               structs (snd (Caller_Call ConvertType caller opts calls st)) q = structs st q)"
proof -
  define st1' where "st1' = st1\<lparr>heap := (heap st1)(calls ! i \<mapsto> call\<lparr>Failed := True\<rparr>)\<rparr>"
  obtain out st' where rest: "Call_resultLoop ConvertType calls (Suc i) (drop (Suc i) results)
      st1' = (out, st')"
    by (cases "Call_resultLoop ConvertType calls (Suc i) (drop (Suc i) results) st1'")
  have step: "Call_resultStep ConvertType calls i (results ! i) st1 = (Return None, st1')"
    unfolding st1'_def using i(2) unit flag by (rule Call_resultStep_failed)
  have "Call_resultLoop ConvertType calls 0 results (st\<lparr>world := w\<rparr>) =
      Call_resultLoop ConvertType calls i (results ! i # drop (Suc i) results) st1"
    using i(1) before by (rule Call_resultLoop_split)
  then have whole: "Call_resultLoop ConvertType calls 0 results (st\<lparr>world := w\<rparr>) = (out, st')"
    using step rest by simp
  have call: "Caller_Call ConvertType caller opts calls st =
      (case out of Panic pn \<Rightarrow> (Panic pn, st') | Return eo \<Rightarrow> (Return (calls, eo), st'))"
    by (simp add: Caller_Call_results [OF pk rm] whole)
  have final: "snd (Caller_Call ConvertType caller opts calls st) = st'"
    by (simp add: call split: outcome.splits)
  have outcome: "Caller_Call ConvertType caller opts calls st =
      (case Call_resultLoop ConvertType calls (Suc i) (drop (Suc i) results) st1' of
         (Panic pn, st') \<Rightarrow> (Panic pn, st')
       | (Return eo, st') \<Rightarrow> (Return (calls, eo), st'))"
    by (simp add: call rest)
  have success: "Caller_Call ConvertType caller opts calls st = (Return (calls, None), st2)"
    if "Call_resultLoop ConvertType calls (Suc i) (drop (Suc i) results) st1' =
          (Return None, st2)" for st2
    using that by (simp add: outcome)
  have flagged: "heap (snd (Caller_Call ConvertType caller opts calls st)) (calls ! i) =
      Some (call\<lparr>Failed := True\<rparr>)"
    if "calls ! i \<notin> set (drop (Suc i) (take (length results) calls))"
  proof -
    have "take (length (drop (Suc i) results)) (drop (Suc i) calls) =
            drop (Suc i) (take (length results) calls)"
      using i(1) by (simp add: drop_take)
    with that have "calls ! i \<notin> set (take (length (drop (Suc i) results)) (drop (Suc i) calls))"
      by simp
    with rest have "heap st' (calls ! i) = heap st1' (calls ! i)"
      by (rule Call_resultLoop_heap_frame)
    then show ?thesis by (simp add: st1'_def final)
  qed
  have untouched: "structs (snd (Caller_Call ConvertType caller opts calls st)) q = structs st q"
    if "\<forall>j < length results. j < length calls \<and> Success (results ! j) \<longrightarrow>
          map_option Outputs (heap st (calls ! j)) \<noteq> Some (Pointer q)" for q
  proof -
    have "\<forall>j < length results. 0 + j < length calls \<and> Success (results ! j) \<longrightarrow>
            map_option Outputs (heap (st\<lparr>world := w\<rparr>) (calls ! (0 + j))) \<noteq> Some (Pointer q)"
      using that by simp
    with whole have "structs st' q = structs (st\<lparr>world := w\<rparr>) q"
      by (rule Call_resultLoop_structs_frame)
    then show ?thesis by (simp add: final)
  qed
  from step have "Call_resultStep ConvertType calls i (results ! i) st1 =
      (Return None, st1\<lparr>heap := (heap st1)(calls ! i \<mapsto> call\<lparr>Failed := True\<rparr>)\<rparr>)"
    by (simp add: st1'_def)
  moreover note outcome [unfolded st1'_def] success [unfolded st1'_def] flagged untouched
  ultimately show ?thesis by blast
qed

text \<open>
  Three units, the second one failed on the remote side. When the third unit decodes,
  the dispatch returns no error; when it does not, the dispatch returns the error of
  index 2. In both runs the flag of the second unit is set and its destination is
  still 0.
\<close>

theorem Call_failed_unit_witness:
  "fst (Caller_Call testConvertType (stubCaller [Inr [ok [50], failed, ok [70]]]) () [0, 1, 2]
          threeUnits) = Return ([0, 1, 2], None) \<and>
   map_option Failed (heap (snd (Caller_Call testConvertType
     (stubCaller [Inr [ok [50], failed, ok [70]]]) () [0, 1, 2] threeUnits)) 1) = Some True \<and>
   map_option (map fieldValue) (structs (snd (Caller_Call testConvertType
     (stubCaller [Inr [ok [50], failed, ok [70]]]) () [0, 1, 2] threeUnits)) 11) = Some [0] \<and>
   fst (Caller_Call testConvertType (stubCaller [Inr [ok [50], failed, ok []]]) () [0, 1, 2]
          threeUnits) =
     Return ([0, 1, 2],
       Some (UnpackAt 2 (UnpackOutputs ''balanceOf'' (External ''empty output'')))) \<and>
   map_option Failed (heap (snd (Caller_Call testConvertType
     (stubCaller [Inr [ok [50], failed, ok []]]) () [0, 1, 2] threeUnits)) 1) = Some True \<and>
   map_option (map fieldValue) (structs (snd (Caller_Call testConvertType
     (stubCaller [Inr [ok [50], failed, ok []]]) () [0, 1, 2] threeUnits)) 11) = Some [0]"
proof -
  let ?C = "testConvertType"
  define st1 where
    "st1 = snd (Call_resultLoop ?C [0, 1, 2] 0 [ok [50]] (threeUnits\<lparr>world := 1\<rparr>))"
  define st1' where
    "st1' = st1\<lparr>heap := (heap st1)([0, 1, 2] ! 1 \<mapsto> (balanceOf [6] 11)\<lparr>Failed := True\<rparr>)\<rparr>"
  have "fst (Call_resultLoop ?C [0, 1, 2] 0 [ok [50]] (threeUnits\<lparr>world := 1\<rparr>)) = Return None"
    by code_simp
  then have reach: "Call_resultLoop ?C [0, 1, 2] 0 [ok [50]] (threeUnits\<lparr>world := 1\<rparr>) =
      (Return None, st1)"
    by (simp add: st1_def prod_eq_iff)
  have unit: "heap st1 ([0, 1, 2] ! 1) = Some (balanceOf [6] 11)"
    by (simp add: st1_def model_defs test_defs)
  have facts: "Caller_Call ?C (stubCaller [Inr [ok [50], failed, x]]) () [0, 1, 2] threeUnits =
        (case Call_resultLoop ?C [0, 1, 2] (Suc 1) [x] st1' of
           (Panic pn, st') \<Rightarrow> (Panic pn, st')
         | (Return eo, st') \<Rightarrow> (Return ([0, 1, 2], eo), st')) \<and>
      map_option Failed (heap (snd (Caller_Call ?C (stubCaller [Inr [ok [50], failed, x]]) ()
        [0, 1, 2] threeUnits)) 1) = Some True \<and>
      map_option (map fieldValue) (structs (snd (Caller_Call ?C
        (stubCaller [Inr [ok [50], failed, x]]) () [0, 1, 2] threeUnits)) 11) = Some [0]"
    if x: "x = ok b" for x b
  proof -
    let ?rs = "[ok [50], failed, x]"
    have i: "1 < length ?rs" "1 < length [0 :: nat, 1, 2]" by simp_all
    have flag: "\<not> Success (?rs ! 1)" by (simp add: failed_def)
    have before: "Call_resultLoop ?C [0, 1, 2] 0 (take 1 ?rs) (threeUnits\<lparr>world := 1\<rparr>) =
        (Return None, st1)"
      using reach by simp
    note th = Call_failed_unit [OF threeUnits_pack threeUnits_answer i flag before unit]
    from th have run: "Caller_Call ?C (stubCaller [Inr ?rs]) () [0, 1, 2] threeUnits =
        (case Call_resultLoop ?C [0, 1, 2] (Suc 1) [x] st1' of
           (Panic pn, st') \<Rightarrow> (Panic pn, st')
         | (Return eo, st') \<Rightarrow> (Return ([0, 1, 2], eo), st'))"
      by (simp add: st1'_def)
    have "[0, 1, 2] ! 1 \<notin> set (drop (Suc 1) (take (length ?rs) [0 :: nat, 1, 2]))" by simp
    with th have "heap (snd (Caller_Call ?C (stubCaller [Inr ?rs]) () [0, 1, 2] threeUnits))
        ([0, 1, 2] ! 1) = Some ((balanceOf [6] 11)\<lparr>Failed := True\<rparr>)"
      by blast
    then have f: "map_option Failed (heap (snd (Caller_Call ?C (stubCaller [Inr ?rs]) ()
        [0, 1, 2] threeUnits)) 1) = Some True"
      by simp
    have "Outputs (balanceOf [6] 11 :: (nat, nat) Call) = Pointer 11 \<and>
          (\<forall>j < length ?rs. j < length [0 :: nat, 1, 2] \<and> Success (?rs ! j) \<longrightarrow>
             map_option Outputs (heap threeUnits ([0, 1, 2] ! j)) \<noteq> Some (Pointer 11))"
      by (simp add: test_defs less_Suc_eq numeral_3_eq_3)
    with th have "structs (snd (Caller_Call ?C (stubCaller [Inr ?rs]) () [0, 1, 2] threeUnits))
        11 = structs threeUnits 11"
      by blast
    then have d: "map_option (map fieldValue) (structs (snd (Caller_Call ?C
        (stubCaller [Inr ?rs]) () [0, 1, 2] threeUnits)) 11) = Some [0]"
      by (simp add: test_defs)
    from run f d show ?thesis by blast
  qed
  have good: "fst (Call_resultLoop ?C [0, 1, 2] (Suc 1) [ok [70]] st1') = Return None"
    unfolding st1'_def st1_def by code_simp
  have bad: "fst (Call_resultLoop ?C [0, 1, 2] (Suc 1) [ok []] st1') =
      Return (Some (UnpackAt 2 (UnpackOutputs ''balanceOf'' (External ''empty output''))))"
    unfolding st1'_def st1_def by code_simp
  have a: "fst (Caller_Call ?C (stubCaller [Inr [ok [50], failed, ok [70]]]) () [0, 1, 2]
      threeUnits) = Return ([0, 1, 2], None)"
    using facts [OF refl, of "[70]"] good
    by (cases "Call_resultLoop ?C [0, 1, 2] (Suc 1) [ok [70]] st1'") simp
  have b: "fst (Caller_Call ?C (stubCaller [Inr [ok [50], failed, ok []]]) () [0, 1, 2]
      threeUnits) =
      Return ([0, 1, 2],
        Some (UnpackAt 2 (UnpackOutputs ''balanceOf'' (External ''empty output''))))"
    using facts [OF refl, of "[]"] bad
    by (cases "Call_resultLoop ?C [0, 1, 2] (Suc 1) [ok []] st1'") simp
  from a b facts [OF refl, of "[70]"] facts [OF refl, of "[]"] show ?thesis by blast
qed

text \<open>
  Claim C7. The remote call succeeds with \<open>results\<close>, the loop reaches index \<open>i\<close> (the
  entries before \<open>i\<close> are processed without an abort and leave the state \<open>st1\<close>, in which
  unit \<open>i\<close> is \<open>call\<close>), the success flag of entry \<open>i\<close> is true and \<open>Unpack\<close> of its return
  bytes returns the error \<open>err\<close>. Then \<open>Caller.Call\<close> ends the loop and returns the list
  it was given with the error \<open>failed to unpack call outputs at index [i]: err\<close>. The
  state is \<open>st1\<close>, the state left by the units before \<open>i\<close>, with all their failure flags
  and decoded outputs, except that the failure flag of unit \<open>i\<close> has been set to false.
\<close>

theorem Call_decode_failure:
  assumes pk: "Call_packLoop (heap st) 0 calls [] = Return (Inr multiCalls)"
    and rm: "contract caller opts multiCalls (world st) = (Inr results, w)"
    and i: "i < length results" "i < length calls"
    and before: "Call_resultLoop ConvertType calls 0 (take i results) (st\<lparr>world := w\<rparr>) =
                   (Return None, st1)"
    and unit: "heap st1 (calls ! i) = Some call"
    and flag: "Success (results ! i)"
    and dec: "fst (Call_Unpack ConvertType (call\<lparr>Failed := False\<rparr>) (ReturnData (results ! i))
                (structs st1)) = Return (Some err)"
  shows "Caller_Call ConvertType caller opts calls st =
           (Return (calls, Some (UnpackAt i err)),
            st1\<lparr>heap := (heap st1)(calls ! i \<mapsto> call\<lparr>Failed := False\<rparr>)\<rparr>)"
proof -
  obtain S where up: "Call_Unpack ConvertType (call\<lparr>Failed := False\<rparr>)
      (ReturnData (results ! i)) (structs st1) = (Return (Some err), S)"
    using dec by (cases "Call_Unpack ConvertType (call\<lparr>Failed := False\<rparr>)
      (ReturnData (results ! i)) (structs st1)") simp
  have "Call_resultStep ConvertType calls i (results ! i) st1 =
          (Return (Some (UnpackAt i err)),
           st1\<lparr>heap := (heap st1)(calls ! i \<mapsto> call\<lparr>Failed := False\<rparr>)\<rparr>)"
    using i(2) unit flag up by (rule Call_resultStep_unpack_error)
  moreover have "Call_resultLoop ConvertType calls 0 results (st\<lparr>world := w\<rparr>) =
      Call_resultLoop ConvertType calls i (results ! i # drop (Suc i) results) st1"
    using i(1) before by (rule Call_resultLoop_split)
  ultimately have "Call_resultLoop ConvertType calls 0 results (st\<lparr>world := w\<rparr>) =
      (Return (Some (UnpackAt i err)),
       st1\<lparr>heap := (heap st1)(calls ! i \<mapsto> call\<lparr>Failed := False\<rparr>)\<rparr>)"
    by simp
  then show ?thesis by (simp add: Caller_Call_results [OF pk rm])
qed

text \<open>
  Three units: the first decoded, the second failed on the remote side, the third with
  return bytes the codec rejects. The error names index 2; the first unit keeps its
  decoded value and the second its failure flag.
\<close>

theorem Call_decode_failure_witness:
  "fst (Caller_Call testConvertType (stubCaller [Inr [ok [50], failed, ok []]]) () [0, 1, 2]
          threeUnits) =
     Return ([0, 1, 2],
       Some (UnpackAt 2 (UnpackOutputs ''balanceOf'' (External ''empty output'')))) \<and>
   failedFlags (snd (Caller_Call testConvertType (stubCaller [Inr [ok [50], failed, ok []]]) ()
     [0, 1, 2] threeUnits)) [0, 1, 2] = [Some False, Some True, Some False] \<and>
   destValues (snd (Caller_Call testConvertType (stubCaller [Inr [ok [50], failed, ok []]]) ()
     [0, 1, 2] threeUnits)) [10, 11, 12] = [Some [50], Some [0], Some [0]]"
proof -
  let ?rs = "[ok [50], failed, ok []]"
  define st1 where
    "st1 = snd (Call_resultLoop testConvertType [0, 1, 2] 0 (take 2 ?rs) (threeUnits\<lparr>world := 1\<rparr>))"
  have rm: "contract (stubCaller [Inr ?rs]) ()
          [\<lparr>Target = [0xCA, 0x11], AllowFailure = False, CallData = [5]\<rparr>,
           \<lparr>Target = [0xCA, 0x11], AllowFailure = False, CallData = [6]\<rparr>,
           \<lparr>Target = [0xCA, 0x11], AllowFailure = False, CallData = [7]\<rparr>]
          (world threeUnits) = (Inr ?rs, 1)"
    by (simp add: stubCaller_def threeUnits_def testState_def)
  have i: "2 < length ?rs" "2 < length [0 :: nat, 1, 2]" by simp_all
  have "fst (Call_resultLoop testConvertType [0, 1, 2] 0 (take 2 ?rs) (threeUnits\<lparr>world := 1\<rparr>))
          = Return None"
    by code_simp
  then have before: "Call_resultLoop testConvertType [0, 1, 2] 0 (take 2 ?rs)
      (threeUnits\<lparr>world := 1\<rparr>) = (Return None, st1)"
    by (simp add: st1_def prod_eq_iff)
  have unit: "heap st1 ([0, 1, 2] ! 2) = Some (balanceOf [7] 12)"
    by (simp add: st1_def model_defs test_defs)
  have flag: "Success (?rs ! 2)" by (simp add: ok_def)
  have dec: "fst (Call_Unpack testConvertType ((balanceOf [7] 12)\<lparr>Failed := False\<rparr>)
      (ReturnData (?rs ! 2)) (structs st1)) =
      Return (Some (UnpackOutputs ''balanceOf'' (External ''empty output'')))"
    by (simp add: st1_def model_defs test_defs)
  have run: "Caller_Call testConvertType (stubCaller [Inr ?rs]) () [0, 1, 2] threeUnits =
      (Return ([0, 1, 2],
         Some (UnpackAt 2 (UnpackOutputs ''balanceOf'' (External ''empty output'')))),
       st1\<lparr>heap := (heap st1)([0, 1, 2] ! 2 \<mapsto> (balanceOf [7] 12)\<lparr>Failed := False\<rparr>)\<rparr>)"
    by (rule Call_decode_failure [OF threeUnits_pack rm i before unit flag dec])
  have "failedFlags (st1\<lparr>heap := (heap st1)([0, 1, 2] ! 2 \<mapsto> (balanceOf [7] 12)\<lparr>Failed := False\<rparr>)\<rparr>)
          [0, 1, 2] = [Some False, Some True, Some False]"
    unfolding st1_def by code_simp
  moreover have "destValues
      (st1\<lparr>heap := (heap st1)([0, 1, 2] ! 2 \<mapsto> (balanceOf [7] 12)\<lparr>Failed := False\<rparr>)\<rparr>)
          [10, 11, 12] = [Some [50], Some [0], Some [0]]"
    unfolding st1_def by code_simp
  ultimately show ?thesis by (simp only: run fst_conv snd_conv simp_thms)
qed



section \<open>The claim about unpacking\<close>

text \<open>
  Claim C1, as stated: on every mismatch between the fields of the destination and the
  decoded values \<open>Unpack\<close> returns an error, never panics, never writes part of the
  fields and never ignores excess values. The code has no check of the number of
  decoded values. With two fields and one decoded value, the first field is written and
  \<open>out[1]\<close> then panics; with one field and two decoded values, the field is written,
  the second value is ignored and \<open>Unpack\<close> returns no error.
\<close>

theorem Call_Unpack_mismatch:
  "fst (Call_Unpack testConvertType (balanceOf [5] 10) [1] (map_of [(10, [uint8 0, uint8 0])])) =
     Panic OutIndexOutOfRange \<and>
   map_option (map fieldValue)
     (snd (Call_Unpack testConvertType (balanceOf [5] 10) [1]
        (map_of [(10, [uint8 0, uint8 0])])) 10) = Some [1, 0] \<and>
   fst (Call_Unpack testConvertType (balanceOf [5] 10) [1, 2] (map_of [(10, [uint8 0])])) =
     Return None \<and>
   map_option (map fieldValue)
     (snd (Call_Unpack testConvertType (balanceOf [5] 10) [1, 2]
        (map_of [(10, [uint8 0])])) 10) = Some [1]"
  by code_simp

text \<open>
  Claim C1, amended. \<open>Unpack\<close> returns the error \<open>outputs type is not a struct\<close> when the
  destination is neither a struct nor a pointer to a struct, and the error
  \<open>failed to unpack '<method>' outputs: cause\<close> when the codec rejects the return bytes;
  whenever it returns an error, it has written nothing. When the destination is reached
  through a pointer, every field is exported, the codec returns at least as many values
  as there are fields and value \<open>j\<close> converts to the type of field \<open>j\<close>, \<open>Unpack\<close> assigns
  the converted value \<open>j\<close> to field \<open>j\<close> for every field, ignores the values beyond the
  last field, and returns no error.
\<close>

theorem Call_Unpack_behaviour:
  "(structOf (Outputs call) S = None \<longrightarrow>
      Call_Unpack ConvertType call b S = (Return (Some NotStruct), S)) \<and>
   (\<forall>t c a cause.
      structOf (Outputs call) S = Some t \<and> Contract call = Some c \<and> abi c = Some a \<and>
      abi_Unpack a (Method call) b = Inl cause \<longrightarrow>
      Call_Unpack ConvertType call b S =
        (Return (Some (UnpackOutputs (Method call) (External cause))), S)) \<and>
   (\<forall>err S'. Call_Unpack ConvertType call b S = (Return (Some err), S') \<longrightarrow> S' = S) \<and>
   (\<forall>p fs c a out vs.
      Outputs call = Pointer p \<and> S p = Some fs \<and> Contract call = Some c \<and> abi c = Some a \<and>
      abi_Unpack a (Method call) b = Inr out \<and>
      length fs \<le> length out \<and> length vs = length fs \<and>
      (\<forall>j < length fs. fieldExported (fs ! j) \<and>
         ConvertType (out ! j) (fieldType (fs ! j)) = Some (vs ! j)) \<longrightarrow>
      Call_Unpack ConvertType call b S =
        (Return None, S(p \<mapsto> map2 (\<lambda>f v. f\<lparr>fieldValue := v\<rparr>) fs vs)))"
proof (intro conjI allI impI)
  assume "structOf (Outputs call) S = None"
  then show "Call_Unpack ConvertType call b S = (Return (Some NotStruct), S)"
    by (simp add: Call_Unpack_def)
next
  fix t c a cause
  assume "structOf (Outputs call) S = Some t \<and> Contract call = Some c \<and> abi c = Some a \<and>
      abi_Unpack a (Method call) b = Inl cause"
  then show "Call_Unpack ConvertType call b S =
      (Return (Some (UnpackOutputs (Method call) (External cause))), S)"
    by (cases t) (simp add: Call_Unpack_def)
next
  fix err S'
  assume "Call_Unpack ConvertType call b S = (Return (Some err), S')"
  then show "S' = S" by (rule Call_Unpack_error_no_write)
next
  fix p fs c a out vs
  assume h: "Outputs call = Pointer p \<and> S p = Some fs \<and> Contract call = Some c \<and>
      abi c = Some a \<and> abi_Unpack a (Method call) b = Inr out \<and>
      length fs \<le> length out \<and> length vs = length fs \<and>
      (\<forall>j < length fs. fieldExported (fs ! j) \<and>
         ConvertType (out ! j) (fieldType (fs ! j)) = Some (vs ! j))"
  then have "Unpack_loop ConvertType True out 0 fs =
      (None, take 0 fs @ map2 (\<lambda>f v. f\<lparr>fieldValue := v\<rparr>) (drop 0 fs) (drop 0 vs))"
    by (intro Unpack_loop_ok) auto
  with h show "Call_Unpack ConvertType call b S =
      (Return None, S(p \<mapsto> map2 (\<lambda>f v. f\<lparr>fieldValue := v\<rparr>) fs vs))"
    by (simp add: Call_Unpack_def structOf_def)
qed

text \<open>
  A destination that is not a struct; return bytes the codec rejects; a destination of
  one field with two decoded values.
\<close>

theorem Call_Unpack_behaviour_witness:
  "Call_Unpack testConvertType (NewCall (Some testContract) OtherValue ''balanceOf'' [5]) [1]
     (map_of [(10, [uint8 0])]) = (Return (Some NotStruct), map_of [(10, [uint8 0])]) \<and>
   Call_Unpack testConvertType (balanceOf [5] 10) [] (map_of [(10, [uint8 0])]) =
     (Return (Some (UnpackOutputs ''balanceOf'' (External ''empty output''))),
      map_of [(10, [uint8 0])]) \<and>
   Call_Unpack testConvertType (balanceOf [5] 10) [1, 2] (map_of [(10, [uint8 0])]) =
     (Return None, (map_of [(10, [uint8 0])])(10 \<mapsto> [uint8 1]))"
proof -
  let ?S = "map_of [(10 :: nat, [uint8 0])]"
  let ?other = "NewCall (Some testContract) OtherValue ''balanceOf'' [5] :: (nat, nat) Call"
  let ?call = "balanceOf [5] 10"
  have "structOf (Outputs ?other) ?S = None" by (simp add: NewCall_def structOf_def)
  with Call_Unpack_behaviour [of ?other ?S testConvertType "[1]"]
  have a: "Call_Unpack testConvertType ?other [1] ?S = (Return (Some NotStruct), ?S)"
    by blast
  have "structOf (Outputs ?call) ?S = Some (True, [uint8 0]) \<and>
      Contract ?call = Some testContract \<and> abi testContract = Some testABI \<and>
      abi_Unpack testABI (Method ?call) [] = Inl ''empty output''"
    by (simp add: balanceOf_def NewCall_def structOf_def testContract_def testABI_def)
  with Call_Unpack_behaviour [of ?call ?S testConvertType "[]"]
  have "Call_Unpack testConvertType ?call [] ?S =
      (Return (Some (UnpackOutputs (Method ?call) (External ''empty output''))), ?S)"
    by blast
  then have b: "Call_Unpack testConvertType ?call [] ?S =
      (Return (Some (UnpackOutputs ''balanceOf'' (External ''empty output''))), ?S)"
    by (simp add: balanceOf_def NewCall_def)
  have "Outputs ?call = Pointer 10 \<and> ?S 10 = Some [uint8 0] \<and>
      Contract ?call = Some testContract \<and> abi testContract = Some testABI \<and>
      abi_Unpack testABI (Method ?call) [1, 2] = Inr [1, 2] \<and>
      length [uint8 0] \<le> length [1 :: nat, 2] \<and> length [1 :: nat] = length [uint8 0] \<and>
      (\<forall>j < length [uint8 0]. fieldExported ([uint8 0] ! j) \<and>
         testConvertType ([1, 2] ! j) (fieldType ([uint8 0] ! j)) = Some ([1] ! j))"
    by (simp add: balanceOf_def NewCall_def testContract_def testABI_def uint8_def
        testConvertType_def)
  with Call_Unpack_behaviour [of ?call ?S testConvertType "[1, 2]"]
  have "Call_Unpack testConvertType ?call [1, 2] ?S =
      (Return None, ?S(10 \<mapsto> map2 (\<lambda>f v. f\<lparr>fieldValue := v\<rparr>) [uint8 0] [1]))"
    by blast
  then have c: "Call_Unpack testConvertType ?call [1, 2] ?S =
      (Return None, ?S(10 \<mapsto> [uint8 1]))"
    by (simp add: uint8_def)
  from a b c show ?thesis by blast
qed

section \<open>The claims about a chunked dispatch\<close>



text \<open>
  Claim C2, as stated: when a chunk's dispatch fails, the units returned are unmodified
  and none carries results of the chunks that succeeded before. The units are pointers
  and every dispatch writes through them; nothing is rolled back. Three units in chunks
  of two, the second dispatch failing on the remote side: the list and the error are as
  the claim says, but the destinations of the first two units hold the values decoded by
  the first dispatch.
\<close>

theorem CallChunked_failure_keeps_results:
  "fst (Caller_CallChunked testConvertType
          (stubCaller [Inr [ok [50], ok [60]], Inl ''execution reverted'']) () 2 0 [0, 1, 2]
          threeUnits) =
     Return ([0, 1, 2],
       Some (ChunkFailed 1 (MulticallFailed (External ''execution reverted'')))) \<and>
   destValues threeUnits [10, 11, 12] = [Some [0], Some [0], Some [0]] \<and>
   destValues (snd (Caller_CallChunked testConvertType
          (stubCaller [Inr [ok [50], ok [60]], Inl ''execution reverted'']) () 2 0 [0, 1, 2]
          threeUnits)) [10, 11, 12] = [Some [50], Some [60], Some [0]]"
  by code_simp

text \<open>
  Claim C2, amended. If the chunks before chunk \<open>i\<close> are dispatched without an error,
  leaving the state \<open>st1\<close>, and the dispatch of chunk \<open>i\<close> returns the error \<open>err\<close>,
  leaving \<open>st2\<close>, then \<open>Caller.CallChunked\<close> stops there (the state it returns is \<open>st2\<close>:
  no later chunk is dispatched) and returns the whole input list, the same pointers in
  the same order, with the error \<open>call chunk [i] failed: err\<close>. Nothing is rolled back:
  every unit outside chunk \<open>i\<close> and every destination that no unit of chunk \<open>i\<close> points to
  is as the dispatches before left it, with their failure flags and decoded outputs.
\<close>

theorem CallChunked_failure:
  assumes "chunkInputs chunkSize calls = Some chunks" and "i < length chunks"
    and "CallChunked_loop ConvertType caller opts cooldown calls 0 (take i chunks) [] st =
           (Return (done, None), st1)"
    and "Caller_Call ConvertType caller opts (chunks ! i)
           (if i > 0 \<and> cooldown > 0 then st1\<lparr>slept := slept st1 @ [cooldown]\<rparr> else st1) =
           (Return (ck, Some err), st2)"
  shows "Caller_CallChunked ConvertType caller opts chunkSize cooldown calls st =
           (Return (calls, Some (ChunkFailed i err)), st2) \<and>
         (\<forall>p. p \<notin> set (chunks ! i) \<longrightarrow> heap st2 p = heap st1 p) \<and>
         (\<forall>q. (\<forall>p \<in> set (chunks ! i). map_option Outputs (heap st1 p) \<noteq> Some (Pointer q)) \<longrightarrow>
              structs st2 q = structs st1 q)"
proof -
  define st1' where
    "st1' = (if i > 0 \<and> cooldown > 0 then st1\<lparr>slept := slept st1 @ [cooldown]\<rparr> else st1)"
  have same: "heap st1' = heap st1" "structs st1' = structs st1" by (simp_all add: st1'_def)
  have fail: "Caller_Call ConvertType caller opts (chunks ! i) st1' = (Return (ck, Some err), st2)"
    using assms(4) by (simp add: st1'_def)
  have "chunks = take i chunks @ (chunks ! i # drop (Suc i) chunks)"
    using assms(2) by (rule id_take_nth_drop)
  then have "CallChunked_loop ConvertType caller opts cooldown calls 0 chunks [] st =
      CallChunked_loop ConvertType caller opts cooldown calls 0
        (take i chunks @ (chunks ! i # drop (Suc i) chunks)) [] st"
    by simp
  also have "\<dots> = CallChunked_loop ConvertType caller opts cooldown calls
      (0 + length (take i chunks)) (chunks ! i # drop (Suc i) chunks) done st1"
    by (simp only: CallChunked_loop_append assms(3) prod.case outcome.case option.case)
  also have "\<dots> = (Return (calls, Some (ChunkFailed i err)), st2)"
    using assms(2,4) by (simp add: min_absorb2)
  finally have run: "Caller_CallChunked ConvertType caller opts chunkSize cooldown calls st =
      (Return (calls, Some (ChunkFailed i err)), st2)"
    using assms(1) by (simp add: Caller_CallChunked_def)
  have units: "heap st2 p = heap st1 p" if "p \<notin> set (chunks ! i)" for p
    using Caller_Call_heap_frame [OF fail that] same by simp
  have dests: "structs st2 q = structs st1 q"
    if "\<forall>p \<in> set (chunks ! i). map_option Outputs (heap st1 p) \<noteq> Some (Pointer q)" for q
  proof -
    from that have "\<forall>p \<in> set (chunks ! i). map_option Outputs (heap st1' p) \<noteq> Some (Pointer q)"
      by (simp add: same)
    with fail have "structs st2 q = structs st1' q" by (rule Caller_Call_structs_frame)
    then show ?thesis by (simp add: same)
  qed
  from run units dests show ?thesis by blast
qed

text \<open>
  Three units in chunks of two with a pause of 3; the first dispatch decodes unit 0 and
  marks unit 1 failed, the second fails on the remote side.
\<close>

theorem CallChunked_failure_witness:
  "fst (Caller_CallChunked testConvertType
          (stubCaller [Inr [ok [50], failed], Inl ''execution reverted'']) () 2 3 [0, 1, 2]
          threeUnits) =
     Return ([0, 1, 2],
       Some (ChunkFailed 1 (MulticallFailed (External ''execution reverted'')))) \<and>
   failedFlags (snd (Caller_CallChunked testConvertType
          (stubCaller [Inr [ok [50], failed], Inl ''execution reverted'']) () 2 3 [0, 1, 2]
          threeUnits)) [0, 1] = [Some False, Some True] \<and>
   destValues (snd (Caller_CallChunked testConvertType
          (stubCaller [Inr [ok [50], failed], Inl ''execution reverted'']) () 2 3 [0, 1, 2]
          threeUnits)) [10, 11] = [Some [50], Some [0]]"
proof -
  let ?C = "testConvertType"
  let ?caller = "stubCaller [Inr [ok [50], failed], Inl ''execution reverted'']"
  let ?chunks = "[[0 :: nat, 1], [2]]"
  define st1 where
    "st1 = snd (CallChunked_loop ?C ?caller () 3 [0, 1, 2] 0 (take 1 ?chunks) [] threeUnits)"
  define st2 where
    "st2 = snd (Caller_Call ?C ?caller () (?chunks ! 1)
       (if (1 :: nat) > 0 \<and> (3 :: int) > 0 then st1\<lparr>slept := slept st1 @ [3]\<rparr> else st1))"
  have i: "1 < length ?chunks" by simp
  have "fst (CallChunked_loop ?C ?caller () 3 [0, 1, 2] 0 (take 1 ?chunks) [] threeUnits) =
      Return ([0, 1], None)"
    by code_simp
  then have before: "CallChunked_loop ?C ?caller () 3 [0, 1, 2] 0 (take 1 ?chunks) []
      threeUnits = (Return ([0, 1], None), st1)"
    by (simp add: st1_def prod_eq_iff)
  have "fst (Caller_Call ?C ?caller () (?chunks ! 1)
       (if (1 :: nat) > 0 \<and> (3 :: int) > 0 then st1\<lparr>slept := slept st1 @ [3]\<rparr> else st1)) =
      Return ([2], Some (MulticallFailed (External ''execution reverted'')))"
    unfolding st1_def by code_simp
  then have fail: "Caller_Call ?C ?caller () (?chunks ! 1)
       (if (1 :: nat) > 0 \<and> (3 :: int) > 0 then st1\<lparr>slept := slept st1 @ [3]\<rparr> else st1) =
      (Return ([2], Some (MulticallFailed (External ''execution reverted''))), st2)"
    by (simp add: st2_def prod_eq_iff)
  note th = CallChunked_failure [OF threeUnits_chunks i before fail]
  from th have run: "Caller_CallChunked ?C ?caller () 2 3 [0, 1, 2] threeUnits =
      (Return ([0, 1, 2],
         Some (ChunkFailed 1 (MulticallFailed (External ''execution reverted'')))), st2)"
    by blast
  have "(0 :: nat) \<notin> set (?chunks ! 1)" "(1 :: nat) \<notin> set (?chunks ! 1)" by simp_all
  with th have h: "heap st2 0 = heap st1 0" "heap st2 1 = heap st1 1" by blast+
  have "\<forall>p \<in> set (?chunks ! 1). map_option Outputs (heap st1 p) \<noteq> Some (Pointer 10)"
    "\<forall>p \<in> set (?chunks ! 1). map_option Outputs (heap st1 p) \<noteq> Some (Pointer 11)"
    unfolding st1_def by code_simp+
  with th have s: "structs st2 10 = structs st1 10" "structs st2 11 = structs st1 11"
    by blast+
  have "map_option Failed (heap st1 0) = Some False" "map_option Failed (heap st1 1) = Some True"
    "map_option (map fieldValue) (structs st1 10) = Some [50]"
    "map_option (map fieldValue) (structs st1 11) = Some [0]"
    unfolding st1_def by code_simp+
  then show ?thesis
    by (simp only: run fst_conv snd_conv failedFlags_def destValues_def list.map h s simp_thms)
qed

section \<open>The claims about the chunker\<close>

text \<open>
  Claim C8. The chunker returns an empty result for an empty list; and for every
  non-empty list, if the size is at most 0, or the list has fewer than 2 units, or the
  size exceeds the length of the list, it returns exactly one chunk, the whole list.
\<close>

theorem chunkInputs_no_split:
  "chunkInputs size' ([] :: 'a list) = Some [] \<and>
   (\<forall>xs :: 'a list. xs \<noteq> [] \<and> (size' \<le> 0 \<or> length xs < 2 \<or> int (length xs) < size') \<longrightarrow>
      chunkInputs size' xs = Some [xs])"
  by (simp add: chunkInputs_def)

text \<open>
  The theorem at sizes \<open>0\<close>, \<open>-4\<close>, \<open>1\<close> (on a list of one unit) and \<open>4\<close> (on a list of
  three).
\<close>

theorem chunkInputs_no_split_witness:
  "chunkInputs 0 ([] :: nat list) = Some [] \<and>
   chunkInputs 0 [1 :: nat, 2, 3] = Some [[1, 2, 3]] \<and>
   chunkInputs (- 4) [1 :: nat, 2, 3] = Some [[1, 2, 3]] \<and>
   chunkInputs 1 [7 :: nat] = Some [[7]] \<and>
   chunkInputs 4 [1 :: nat, 2, 3] = Some [[1, 2, 3]]"
  using chunkInputs_no_split [of 0, where 'a = nat]
    chunkInputs_no_split [of "- 4", where 'a = nat]
    chunkInputs_no_split [of 1, where 'a = nat]
    chunkInputs_no_split [of 4, where 'a = nat]
  by simp

text \<open>
  Claim C3. For a list of \<open>n \<ge> 2\<close> units and a size with \<open>1 \<le> size \<le> n\<close>, the chunker
  returns (without a panic) \<open>n div size\<close> chunks of exactly \<open>size\<close> units, chunk \<open>k\<close>
  holding the units \<open>k * size, \<dots>, k * size + size - 1\<close> of the input, followed by one
  chunk of the last \<open>n mod size\<close> units when \<open>n mod size\<close> is not zero; the
  concatenation of the chunks is the input list.
\<close>

theorem chunkInputs_chunks:
  assumes "2 \<le> length xs" and "1 \<le> size'" and "size' \<le> int (length xs)"
  shows "\<exists>chunks. chunkInputs size' xs = Some chunks \<and>
           length chunks =
             length xs div nat size' + (if length xs mod nat size' = 0 then 0 else 1) \<and>
           (\<forall>k < length xs div nat size'.
              chunks ! k = take (nat size') (drop (k * nat size') xs) \<and>
              length (chunks ! k) = nat size') \<and>
           (length xs mod nat size' \<noteq> 0 \<longrightarrow>
              last chunks = drop (length xs div nat size' * nat size') xs \<and>
              length (last chunks) = length xs mod nat size') \<and>
           concat chunks = xs"
proof -
  define s where "s = nat size'"
  define n where "n = length xs"
  define full where "full = map (\<lambda>k. take s (drop (k * s) xs)) [0..<n div s]"
  define rest where "rest = (if n mod s = 0 then [] else [drop (n div s * s) xs])"
  have s: "0 < s" "s \<le> n" using assms by (simp_all add: s_def n_def)
  have eq: "chunkInputs size' xs = Some (full @ rest)"
    using chunkInputs_split [OF assms] by (simp add: full_def rest_def s_def n_def)
  have le: "n div s * s \<le> length xs"
    unfolding n_def by (rule div_times_less_eq_dividend)
  have len: "length (full @ rest) = n div s + (if n mod s = 0 then 0 else 1)"
    by (simp add: full_def rest_def)
  have nth: "(full @ rest) ! k = take s (drop (k * s) xs) \<and> length ((full @ rest) ! k) = s"
    if "k < n div s" for k
  proof -
    have "Suc k \<le> n div s" using that by simp
    then have "Suc k * s \<le> n div s * s" by (rule mult_le_mono1)
    then have "k * s + s \<le> length xs" using le by simp
    then have "length (take s (drop (k * s) xs)) = s" by simp
    moreover have "(full @ rest) ! k = take s (drop (k * s) xs)"
      using that by (simp add: full_def nth_append)
    ultimately show ?thesis by simp
  qed
  have lst: "last (full @ rest) = drop (n div s * s) xs \<and>
             length (last (full @ rest)) = n mod s" if "n mod s \<noteq> 0"
    using that by (simp add: rest_def n_def minus_div_mult_eq_mod)
  have "concat full = take (n div s * s) xs"
    unfolding full_def using le by (rule concat_full_chunks)
  moreover have "concat rest = drop (n div s * s) xs"
  proof (cases "n mod s = 0")
    case True
    then have "n div s * s = length xs" unfolding n_def by (metis div_mult_mod_eq add.right_neutral)
    then show ?thesis using True by (simp add: rest_def)
  next
    case False
    then show ?thesis by (simp add: rest_def)
  qed
  ultimately have cc: "concat (full @ rest) = xs" by simp
  show ?thesis
    using eq len nth lst cc unfolding s_def [symmetric] n_def [symmetric] by blast
qed

text \<open>The theorem on five units in chunks of two: two full chunks and a remainder of one.\<close>

theorem chunkInputs_chunks_witness:
  "\<exists>chunks. chunkInputs 2 [10 :: nat, 20, 30, 40, 50] = Some chunks \<and>
      length chunks = 3 \<and> chunks ! 0 = [10, 20] \<and> chunks ! 1 = [30, 40] \<and>
      last chunks = [50] \<and> concat chunks = [10, 20, 30, 40, 50]"
proof -
  have h: "2 \<le> length [10 :: nat, 20, 30, 40, 50]" "(1 :: int) \<le> 2"
    "(2 :: int) \<le> int (length [10 :: nat, 20, 30, 40, 50])" by simp_all
  from chunkInputs_chunks [OF h] obtain chunks where
    c: "chunkInputs 2 [10 :: nat, 20, 30, 40, 50] = Some chunks"
      "length chunks = 3"
      "\<forall>k<2. chunks ! k = take 2 (drop (k * 2) [10 :: nat, 20, 30, 40, 50])"
      "last chunks = [50]" "concat chunks = [10, 20, 30, 40, 50]"
    by auto
  have "chunks ! 0 = [10, 20]" "chunks ! 1 = [30, 40]"
    using c(3) by (simp_all add: numeral_2_eq_2)
  with c show ?thesis by blast
qed

end
